theory Spec2Isabelle
  imports Complex_Main
begin

section \<open>Error handling and retry logic of \<open>script.js\<close>\<close>

text \<open>
  A shallow embedding of class \<open>ErrorHandler\<close> of \<open>script.js\<close> (the backoff strategies, the
  error classifier, the circuit breaker, the statistics, the simulated operation and the
  retry loop \<open>makeRequestWithRetry\<close>) and of \<open>calculateDelay\<close> and \<open>createCircuitBreaker\<close> of its
  object \<open>ErrorUtils\<close>.

  Conventions of the embedding.
  \<^item> A JavaScript number is an IEEE 754 double. Counters are \<open>nat\<close> and times in
    milliseconds are \<open>int\<close>: they are whole and far below \<open>2^53\<close>, where doubles are exact.
    What the source computes from the settings (the backoff delays, the time of the next
    retry, the average response time) is a \<open>number\<close>, computed as doubles are. A setting is
    the integer that \<open>parseInt\<close> returned (\<open>NaN\<close> from \<open>parseInt\<close> is outside the model).
  \<^item> \<open>Date.now()\<close> is the field \<open>clock\<close> of the state. Time passes only where the source
    awaits: while the operation is pending (the environment says for how long) and while a
    backoff timer runs (it fires exactly when due, see \<open>timerDelay\<close>).
  \<^item> An \<open>Error\<close> object is its \<open>message\<close>. \<open>return\<close> and \<open>throw\<close> of an async function are
    the two constructors of \<open>completion\<close>.
  \<^item> The DOM and the log are not modelled: \<open>updateStats\<close>, \<open>updateCurrentRequest\<close> and
    \<open>log\<close> only display the state.
\<close>

subsection \<open>Strings and regular expressions\<close>

text \<open>The patterns of \<open>isRetryableError\<close> are plain words, so \<open>pattern.test(s)\<close> is a substring
  search, under ASCII case folding when the pattern carries the flag \<open>i\<close>.\<close>

fun startsWith :: "string \<Rightarrow> string \<Rightarrow> bool" where
  "startsWith [] s = True"
| "startsWith (p # ps) [] = False"
| "startsWith (p # ps) (c # cs) = (p = c \<and> startsWith ps cs)"

fun contains :: "string \<Rightarrow> string \<Rightarrow> bool" where
  "contains p [] = (p = [])"
| "contains p (c # cs) = (startsWith p (c # cs) \<or> contains p cs)"

definition toUpperCase :: "char \<Rightarrow> char" where
  "toUpperCase c =
     (case map_of (zip ''abcdefghijklmnopqrstuvwxyz'' ''ABCDEFGHIJKLMNOPQRSTUVWXYZ'') c of
        Some u \<Rightarrow> u
      | None \<Rightarrow> c)"

datatype regexp = Regexp (source: string) (ignoreCase: bool)

definition test :: "regexp \<Rightarrow> string \<Rightarrow> bool" where
  "test r s =
     (if ignoreCase r then contains (map toUpperCase (source r)) (map toUpperCase s)
      else contains (source r) s)"

text \<open>\<open>s.split(sep)[0]\<close>: the part of \<open>s\<close> before the first occurrence of \<open>sep\<close>,
  all of \<open>s\<close> when there is none.\<close>

fun splitHead :: "string \<Rightarrow> string \<Rightarrow> string" where
  "splitHead sep [] = []"
| "splitHead sep (c # cs) = (if startsWith sep (c # cs) then [] else c # splitHead sep cs)"

subsection \<open>Numbers\<close>

text \<open>The numbers that the source computes are whole, or the quotient of two whole
  numbers: a \<open>number\<close> is an integer that a double holds, an infinity or \<open>NaN\<close>. Zero has
  no sign here (\<open>+0\<close> and \<open>-0\<close> are equal in every comparison).\<close>

datatype number = Finite int | PosInfinity | NegInfinity | NaN

text \<open>The number of binary digits of a positive integer: \<open>2 ^ (bitLength x - 1) \<le> x < 2 ^
  bitLength x\<close>.\<close>

function bitLength :: "int \<Rightarrow> nat" where
  "bitLength x = (if x \<le> 0 then 0 else Suc (bitLength (x div 2)))"
  by pat_completeness auto
termination
  by (relation "measure nat") auto

text \<open>The integer nearest to \<open>p / q\<close> for \<open>q > 0\<close>, the even one of two that are equally
  near (the rounding of IEEE 754 arithmetic).\<close>

definition nearestEven :: "int \<Rightarrow> int \<Rightarrow> int" where
  "nearestEven p q =
     (let m = p div q; r = p mod q
      in if 2 * r < q then m
         else if 2 * r > q then m + 1
         else if even m then m else m + 1)"

text \<open>The double nearest to an integer. A double has 53 binary digits: an integer of \<open>e\<close>
  digits is kept when \<open>e \<le> 53\<close> and is otherwise rounded to a multiple of \<open>2 ^ (e - 53)\<close>;
  what rounds to \<open>2 ^ 1024\<close> or beyond is infinite.\<close>

definition roundToDouble :: "int \<Rightarrow> number" where
  "roundToDouble x =
     (let e = bitLength \<bar>x\<bar>
      in if e \<le> 53 then Finite x
         else
           let ulp = 2 ^ (e - 53);
               y = nearestEven x ulp * ulp
           in if y \<ge> 2 ^ 1024 then PosInfinity
              else if y \<le> - (2 ^ 1024) then NegInfinity
              else Finite y)"

text \<open>\<open>a + b\<close> and \<open>a * b\<close> on numbers: the exact result, rounded.\<close>

fun addNumbers :: "number \<Rightarrow> number \<Rightarrow> number" where
  "addNumbers NaN b = NaN"
| "addNumbers a NaN = NaN"
| "addNumbers (Finite a) (Finite b) = roundToDouble (a + b)"
| "addNumbers PosInfinity NegInfinity = NaN"
| "addNumbers NegInfinity PosInfinity = NaN"
| "addNumbers PosInfinity b = PosInfinity"
| "addNumbers NegInfinity b = NegInfinity"
| "addNumbers (Finite a) b = b"

fun multiplyNumbers :: "number \<Rightarrow> number \<Rightarrow> number" where
  "multiplyNumbers NaN b = NaN"
| "multiplyNumbers a NaN = NaN"
| "multiplyNumbers (Finite a) (Finite b) = roundToDouble (a * b)"
| "multiplyNumbers (Finite a) PosInfinity =
     (if a = 0 then NaN else if a > 0 then PosInfinity else NegInfinity)"
| "multiplyNumbers (Finite a) NegInfinity =
     (if a = 0 then NaN else if a > 0 then NegInfinity else PosInfinity)"
| "multiplyNumbers PosInfinity (Finite b) =
     (if b = 0 then NaN else if b > 0 then PosInfinity else NegInfinity)"
| "multiplyNumbers NegInfinity (Finite b) =
     (if b = 0 then NaN else if b > 0 then NegInfinity else PosInfinity)"
| "multiplyNumbers PosInfinity PosInfinity = PosInfinity"
| "multiplyNumbers PosInfinity NegInfinity = NegInfinity"
| "multiplyNumbers NegInfinity PosInfinity = NegInfinity"
| "multiplyNumbers NegInfinity NegInfinity = PosInfinity"

text \<open>\<open>Math.pow(2, n)\<close> for a whole \<open>n \<ge> 0\<close>: the largest power of 2 that is a double is
  \<open>2 ^ 1023\<close>.\<close>

definition pow2 :: "nat \<Rightarrow> number" where
  "pow2 n = (if n < 1024 then Finite (2 ^ n) else PosInfinity)"

text \<open>The double \<open>s / n\<close> for integers \<open>s \<noteq> 0\<close> and \<open>n > 0\<close>, as mantissa and exponent
  \<open>(m, k)\<close> of the value \<open>m * 2 ^ k\<close>. The quotient lies between \<open>2 ^ e\<close> and \<open>2 ^ (e + 1)\<close>,
  and the doubles there are the multiples of \<open>2 ^ (e - 52)\<close> (of \<open>2 ^ -1074\<close> at least).\<close>

definition quotientDouble :: "int \<Rightarrow> int \<Rightarrow> int \<times> int" where
  "quotientDouble s n =
     (let K = bitLength n;
          f = bitLength (\<bar>s\<bar> * 2 ^ K div n);
          e = int f - 1 - int K;
          k = max (e - 52) (- 1074);
          m = nearestEven (s * 2 ^ nat (- k)) (n * 2 ^ nat k)
      in (m, k))"

text \<open>\<open>Math.round\<close> of the double \<open>m * 2 ^ k\<close>: the floor of \<open>m * 2 ^ k + 1 / 2\<close>.\<close>

definition mathRound :: "int \<times> int \<Rightarrow> int" where
  "mathRound d = (case d of (m, k) \<Rightarrow>
      (2 * m * 2 ^ nat k + 2 ^ nat (- k)) div (2 * 2 ^ nat (- k)))"

text \<open>The delay of \<open>setTimeout(f, ms)\<close>. The argument is a \<open>long\<close> of Web IDL: the number
  is reduced modulo \<open>2 ^ 32\<close> to the range from \<open>- 2 ^ 31\<close> to \<open>2 ^ 31 - 1\<close> (\<open>NaN\<close> and the
  infinities to 0), and a negative delay is 0. So a delay from \<open>2 ^ 31\<close> to \<open>2 ^ 32 - 1\<close>
  milliseconds fires at once.\<close>

definition toInt32 :: "int \<Rightarrow> int" where
  "toInt32 x = (let m = x mod 2 ^ 32 in if m \<ge> 2 ^ 31 then m - 2 ^ 32 else m)"

definition timerDelay :: "number \<Rightarrow> int" where
  "timerDelay ms = (case ms of Finite x \<Rightarrow> max 0 (toInt32 x) | _ \<Rightarrow> 0)"

subsection \<open>Backoff strategies\<close>


subsection \<open>Error classification\<close>

definition retryablePatterns :: "regexp list" where
  "retryablePatterns =
     [Regexp ''timeout'' True, Regexp ''500'' False, Regexp ''502'' False,
      Regexp ''503'' False, Regexp ''504'' False, Regexp ''429'' False,
      Regexp ''network'' True, Regexp ''connection'' True]"

definition nonRetryablePatterns :: "regexp list" where
  "nonRetryablePatterns =
     [Regexp ''400'' False, Regexp ''401'' False, Regexp ''403'' False,
      Regexp ''404'' False, Regexp ''422'' False]"

text \<open>\<open>isRetryableError(error)\<close>, on \<open>error.message\<close>.\<close>

definition isRetryableError :: "string \<Rightarrow> bool" where
  "isRetryableError message =
     (if list_ex (\<lambda>pattern. test pattern message) nonRetryablePatterns then False
      else if list_ex (\<lambda>pattern. test pattern message) retryablePatterns then True
      else False)"

subsection \<open>The state of an \<open>ErrorHandler\<close>\<close>

record Stats =
  totalRequests :: nat
  successfulRequests :: nat
  failedRequests :: nat
  totalRetries :: nat
  responseTimes :: "int list"
  errorTypes :: "string \<rightharpoonup> nat"

record CircuitBreakerState =
  isOpen :: bool
  failureCount :: nat
  lastFailureTime :: "int option"
  threshold :: nat
  timeout :: int

datatype status = Ready | Loading | Retrying | Success | Failed

text \<open>The field \<open>attempt\<close> of \<open>currentRequest\<close> is \<open>shownAttempt\<close> here, apart from the loop
  variable \<open>attempt\<close> of \<open>makeRequestWithRetry\<close>.\<close>

record CurrentRequest =
  status :: status
  shownAttempt :: int
  maxAttempts :: int
  nextRetryTime :: "number option"

text \<open>What one call of the operation did: the value of \<open>attempt\<close> it was given, the time it
  was called at, and how long it was pending.\<close>

record Invocation =
  attemptIndex :: nat
  calledAt :: int
  pendingFor :: int

text \<open>The fields of \<open>this\<close>, then the environment: \<open>clock\<close> is \<open>Date.now()\<close>; \<open>invoked\<close> and
  \<open>slept\<close> are observations that the source does not keep: the calls of the operation and
  the arguments of \<open>this.delay\<close>, in order.\<close>

record ErrorHandler =
  stats :: Stats
  circuitBreakerState :: CircuitBreakerState
  currentRequest :: CurrentRequest
  maxRetries :: int
  baseDelay :: int
  backoffType :: string
  requestTimeout :: int
  clock :: int
  invoked :: "Invocation list"
  slept :: "number list"

text \<open>The values that \<open>updateSettings\<close> reads from the four form fields.\<close>

record Settings =
  maxRetriesField :: int
  baseDelayField :: int
  backoffTypeField :: string
  requestTimeoutField :: int

text \<open>The state that the constructor builds (with \<open>initializeSettings\<close>), at time \<open>now\<close>.\<close>

definition newErrorHandler :: "int \<Rightarrow> ErrorHandler" where
  "newErrorHandler now =
     \<lparr>stats = \<lparr>totalRequests = 0, successfulRequests = 0, failedRequests = 0,
               totalRetries = 0, responseTimes = [], errorTypes = Map.empty\<rparr>,
      circuitBreakerState = \<lparr>isOpen = False, failureCount = 0, lastFailureTime = None,
               threshold = 3, timeout = 30000\<rparr>,
      currentRequest = \<lparr>status = Ready, shownAttempt = 0, maxAttempts = 0,
               nextRetryTime = None\<rparr>,
      maxRetries = 3, baseDelay = 1000, backoffType = ''exponential'',
      requestTimeout = 5000,
      clock = now, invoked = [], slept = []\<rparr>"

definition updateSettings :: "Settings \<Rightarrow> ErrorHandler \<Rightarrow> ErrorHandler" where
  "updateSettings form h =
     h\<lparr>maxRetries := maxRetriesField form,
       baseDelay := baseDelayField form,
       backoffType := backoffTypeField form,
       requestTimeout := requestTimeoutField form\<rparr>"

text \<open>\<open>calculateBackoffDelay(attemptNumber)\<close>, on \<open>this.backoffType\<close> and \<open>this.baseDelay\<close>,
  read as numbers in the same way.\<close>

definition calculateBackoffDelay :: "ErrorHandler \<Rightarrow> nat \<Rightarrow> number" where
  "calculateBackoffDelay h attemptNumber =
     (if backoffType h = ''exponential''
        then multiplyNumbers (roundToDouble (baseDelay h)) (pow2 attemptNumber)
      else if backoffType h = ''linear''
        then multiplyNumbers (roundToDouble (baseDelay h))
               (addNumbers (roundToDouble (int attemptNumber)) (Finite 1))
      else if backoffType h = ''fixed'' then roundToDouble (baseDelay h)
      else roundToDouble (baseDelay h))"

text \<open>\<open>await this.delay(ms)\<close>, that is \<open>setTimeout(resolve, ms)\<close>.\<close>

definition delay :: "number \<Rightarrow> ErrorHandler \<Rightarrow> ErrorHandler" where
  "delay ms h = h\<lparr>clock := clock h + timerDelay ms, slept := slept h @ [ms]\<rparr>"

subsection \<open>Circuit breaker\<close>

definition resetCircuitBreaker :: "ErrorHandler \<Rightarrow> ErrorHandler" where
  "resetCircuitBreaker h =
     h\<lparr>circuitBreakerState :=
         (circuitBreakerState h)\<lparr>failureCount := 0, isOpen := False,
                                  lastFailureTime := None\<rparr>\<rparr>"

text \<open>\<open>isCircuitBreakerOpen()\<close> returns its answer and the state it leaves. In
  \<open>Date.now() - lastFailureTime\<close> the value \<open>null\<close> counts as 0.\<close>

definition isCircuitBreakerOpen :: "ErrorHandler \<Rightarrow> bool \<times> ErrorHandler" where
  "isCircuitBreakerOpen h =
     (if isOpen (circuitBreakerState h) then
        let timeSinceLastFailure =
              clock h - (case lastFailureTime (circuitBreakerState h) of
                           None \<Rightarrow> 0 | Some t \<Rightarrow> t)
        in if timeSinceLastFailure \<ge> timeout (circuitBreakerState h)
           then (False, resetCircuitBreaker h)
           else (True, h)
      else (False, h))"

definition incrementCircuitBreakerFailures :: "ErrorHandler \<Rightarrow> ErrorHandler" where
  "incrementCircuitBreakerFailures h =
     (let h1 = h\<lparr>circuitBreakerState :=
                   (circuitBreakerState h)\<lparr>failureCount :=
                                              failureCount (circuitBreakerState h) + 1,
                                            lastFailureTime := Some (clock h)\<rparr>\<rparr>
      in if failureCount (circuitBreakerState h1) \<ge> threshold (circuitBreakerState h1)
         then h1\<lparr>circuitBreakerState := (circuitBreakerState h1)\<lparr>isOpen := True\<rparr>\<rparr>
         else h1)"

subsection \<open>The simulated operation\<close>

datatype response = Response (data: string) (timestamp: int)

datatype settled = Resolved response | Rejected string

text \<open>The two random numbers of one call: \<open>requestTime\<close>, here the time in milliseconds after
  which the timer fired, and the number compared with the failure rate.\<close>

record Draw =
  requestTime :: int
  chance :: real

text \<open>\<open>simulateAPIRequest(errorType, attempt)\<close> called at time \<open>now\<close>: how long the promise
  is pending and how it settles.\<close>

definition simulateAPIRequest :: "Draw \<Rightarrow> string \<Rightarrow> nat \<Rightarrow> int \<Rightarrow> int \<times> settled" where
  "simulateAPIRequest d errorType attempt now =
     (requestTime d,
      if errorType = ''timeout'' then
        (if chance d < 0.7 then Rejected ''Request timeout''
         else Resolved (Response ''Success after timeout risk'' (now + requestTime d)))
      else if errorType = ''server-error'' then
        (if chance d < 0.6 then Rejected ''Internal Server Error (500)''
         else Resolved (Response ''Server recovered'' (now + requestTime d)))
      else if errorType = ''rate-limit'' then
        (if attempt < 2 then Rejected ''Too Many Requests (429)''
         else Resolved (Response ''Rate limit cleared'' (now + requestTime d)))
      else if errorType = ''unauthorized'' then
        Rejected ''Unauthorized (401) - Invalid credentials''
      else if errorType = ''not-found'' then
        Rejected ''Not Found (404) - Resource does not exist''
      else if errorType = ''bad-request'' then
        Rejected ''Bad Request (400) - Invalid request format''
      else Resolved (Response ''Default success response'' (now + requestTime d)))"

subsection \<open>The retry loop\<close>

datatype jsvalue = Undefined | Result response

text \<open>How a call of the async function \<open>makeRequestWithRetry\<close> ends: \<open>return\<close> fulfils its
  promise, \<open>throw\<close> rejects it with the error (given by its message).\<close>

datatype completion = Returned jsvalue | Thrown string

text \<open>The \<open>try\<close> block of one iteration. \<open>api\<close> stands for
  \<open>this.simulateAPIRequest(errorType, _)\<close>: from the value of \<open>attempt\<close> and the time of the
  call, how long the promise is pending and how it settles. The block ends with an error
  thrown (\<open>Inl\<close>: the circuit breaker's own or the operation's) or with the result (\<open>Inr\<close>).\<close>

definition tryBlock ::
  "(nat \<Rightarrow> int \<Rightarrow> int \<times> settled) \<Rightarrow> int \<Rightarrow> nat \<Rightarrow> ErrorHandler
     \<Rightarrow> (string + response) \<times> ErrorHandler" where
  "tryBlock api startTime attempt h =
     (let h1 = h\<lparr>currentRequest := (currentRequest h)\<lparr>shownAttempt := int attempt + 1\<rparr>\<rparr>;
          (blocked, h2) = isCircuitBreakerOpen h1
      in if blocked then (Inl ''Circuit breaker is open - blocking request'', h2)
         else
           let (elapsed, outcome) = api attempt (clock h2);
               h3 = h2\<lparr>clock := clock h2 + elapsed,
                       invoked := invoked h2 @
                         [\<lparr>attemptIndex = attempt, calledAt = clock h2,
                           pendingFor = elapsed\<rparr>]\<rparr>
           in case outcome of
                Rejected message \<Rightarrow> (Inl message, h3)
              | Resolved result \<Rightarrow>
                  (let endTime = clock h3;
                       h4 = h3\<lparr>stats := (stats h3)
                               \<lparr>successfulRequests := successfulRequests (stats h3) + 1,
                                responseTimes :=
                                  responseTimes (stats h3) @ [endTime - startTime]\<rparr>\<rparr>;
                       h5 = resetCircuitBreaker h4;
                       h6 = h5\<lparr>currentRequest := (currentRequest h5)
                               \<lparr>status := Success, nextRetryTime := None\<rparr>\<rparr>
                   in (Inr result, h6)))"

text \<open>\<open>error.message.split(' (')[0] || error.message\<close>: the empty string is falsy.\<close>

definition errorNameOf :: "string \<Rightarrow> string" where
  "errorNameOf message =
     (if splitHead '' ('' message = [] then message else splitHead '' ('' message)"

text \<open>The \<open>catch\<close> block: it retries, with the incremented \<open>attempt\<close>, or throws the error
  again.\<close>

datatype caught = Retry nat ErrorHandler | Rethrow string ErrorHandler

definition catchBlock :: "string \<Rightarrow> nat \<Rightarrow> ErrorHandler \<Rightarrow> caught" where
  "catchBlock message attempt0 h =
     (let attempt = attempt0 + 1;
          errorName = errorNameOf message;
          h1 = h\<lparr>stats := (stats h)
                  \<lparr>errorTypes := (errorTypes (stats h))
                     (errorName \<mapsto>
                        (case errorTypes (stats h) errorName of
                           None \<Rightarrow> 0 | Some n \<Rightarrow> n) + 1)\<rparr>\<rparr>;
          h2 = incrementCircuitBreakerFailures h1
      in if int attempt \<le> maxRetries h2 \<and> isRetryableError message then
           let h3 = h2\<lparr>stats := (stats h2)\<lparr>totalRetries := totalRetries (stats h2) + 1\<rparr>\<rparr>;
               delayMs = calculateBackoffDelay h3 (attempt - 1);
               h4 = h3\<lparr>currentRequest := (currentRequest h3)
                       \<lparr>nextRetryTime := Some (addNumbers (Finite (clock h3)) delayMs),
                        status := Retrying\<rparr>\<rparr>
           in Retry attempt (delay delayMs h4)
         else
           let h3 = h2\<lparr>stats := (stats h2)
                       \<lparr>failedRequests := failedRequests (stats h2) + 1\<rparr>\<rparr>;
               h4 = h3\<lparr>currentRequest := (currentRequest h3)
                       \<lparr>status := Failed, nextRetryTime := None\<rparr>\<rparr>
           in Rethrow message h4)"

text \<open>\<open>while (attempt <= this.maxRetries) { try ... catch ... }\<close>; a loop that ends because
  its condition fails leaves the function without a \<open>return\<close>.\<close>

function makeRequestLoop ::
  "(nat \<Rightarrow> int \<Rightarrow> int \<times> settled) \<Rightarrow> int \<Rightarrow> nat \<Rightarrow> ErrorHandler
     \<Rightarrow> completion \<times> ErrorHandler" where
  "makeRequestLoop api startTime attempt h =
     (if int attempt \<le> maxRetries h then
        (case tryBlock api startTime attempt h of
           (Inr result, h1) \<Rightarrow> (Returned (Result result), h1)
         | (Inl error, h1) \<Rightarrow>
             (case catchBlock error attempt h1 of
                Retry attempt1 h2 \<Rightarrow> makeRequestLoop api startTime attempt1 h2
              | Rethrow e h2 \<Rightarrow> (Thrown e, h2)))
      else (Returned Undefined, h))"
  by pat_completeness auto
termination
  by (relation "measure (\<lambda>(api, startTime, attempt, h). nat (maxRetries h + 1 - int attempt))")
     (auto simp: tryBlock_def catchBlock_def isCircuitBreakerOpen_def resetCircuitBreaker_def
                 incrementCircuitBreakerFailures_def delay_def Let_def
           split: if_splits prod.splits settled.splits)

text \<open>\<open>makeRequestWithRetry\<close> with the operation as a parameter: the body of the source
  function, its call \<open>this.simulateAPIRequest(errorType, attempt)\<close> being \<open>api attempt\<close>.\<close>

definition makeRequestWithRetryOn ::
  "(nat \<Rightarrow> int \<Rightarrow> int \<times> settled) \<Rightarrow> Settings \<Rightarrow> ErrorHandler
     \<Rightarrow> completion \<times> ErrorHandler" where
  "makeRequestWithRetryOn api form h =
     (let h1 = updateSettings form h;
          h2 = h1\<lparr>stats := (stats h1)\<lparr>totalRequests := totalRequests (stats h1) + 1\<rparr>\<rparr>;
          startTime = clock h2;
          h3 = h2\<lparr>currentRequest :=
                    \<lparr>status = Loading, shownAttempt = 0,
                     maxAttempts = maxRetries h2 + 1, nextRetryTime = None\<rparr>\<rparr>
      in makeRequestLoop api startTime 0 h3)"

text \<open>\<open>makeRequestWithRetry(errorType, requestName)\<close>; \<open>draws attempt\<close> are the random numbers
  of the call of \<open>simulateAPIRequest\<close> with that value of \<open>attempt\<close> (\<open>requestName\<close> is only
  logged).\<close>

definition makeRequestWithRetry ::
  "(nat \<Rightarrow> Draw) \<Rightarrow> string \<Rightarrow> Settings \<Rightarrow> ErrorHandler \<Rightarrow> completion \<times> ErrorHandler" where
  "makeRequestWithRetry draws errorType form h =
     makeRequestWithRetryOn
       (\<lambda>attempt now. simulateAPIRequest (draws attempt) errorType attempt now) form h"

text \<open>\<open>Math.round(x / n)\<close> for a number \<open>x\<close> and a whole \<open>n > 0\<close>.\<close>

definition roundedQuotient :: "number \<Rightarrow> int \<Rightarrow> number" where
  "roundedQuotient x n =
     (case x of
        Finite s \<Rightarrow> if s = 0 then Finite 0 else Finite (mathRound (quotientDouble s n))
      | PosInfinity \<Rightarrow> PosInfinity
      | NegInfinity \<Rightarrow> NegInfinity
      | NaN \<Rightarrow> NaN)"

text \<open>The average that \<open>updateStats\<close> shows:
  \<open>Math.round(responseTimes.reduce((a, b) => a + b, 0) / responseTimes.length)\<close>, and 0 when
  there is no response time.\<close>

definition avgResponseTime :: "Stats \<Rightarrow> number" where
  "avgResponseTime st =
     (if length (responseTimes st) > 0
      then roundedQuotient (foldl addNumbers (Finite 0) (map Finite (responseTimes st)))
             (int (length (responseTimes st)))
      else Finite 0)"

text \<open>\<open>ErrorUtils.createCircuitBreaker(fn, threshold, timeout)\<close>: the variables of the
  closure, and one call of the function it returns, made at time \<open>now\<close>; \<open>fn now\<close> says how
  long the wrapped function is pending and how it settles. The call ends as \<open>completion\<close>
  says, at the time and with the variables given.\<close>

record Closure =
  closureFailureCount :: nat
  closureLastFailureTime :: "int option"
  closureIsOpen :: bool

definition createCircuitBreaker ::
  "(int \<Rightarrow> int \<times> settled) \<Rightarrow> nat \<Rightarrow> int \<Rightarrow> int \<Rightarrow> Closure
     \<Rightarrow> completion \<times> int \<times> Closure" where
  "createCircuitBreaker fn thresholdArg timeoutArg now v =
     (let timeSinceLastFailure =
            now - (case closureLastFailureTime v of None \<Rightarrow> 0 | Some t \<Rightarrow> t)
      in if closureIsOpen v \<and> timeSinceLastFailure < timeoutArg
         then (Thrown ''Circuit breaker is open'', now, v)
         else
           let v1 = (if closureIsOpen v then v\<lparr>closureIsOpen := False\<rparr> else v);
               (elapsed, outcome) = fn now
           in case outcome of
                Resolved result \<Rightarrow>
                  (Returned (Result result), now + elapsed, v1\<lparr>closureFailureCount := 0\<rparr>)
              | Rejected message \<Rightarrow>
                  (let v2 = v1\<lparr>closureFailureCount := closureFailureCount v1 + 1,
                              closureLastFailureTime := Some (now + elapsed)\<rparr>;
                       v3 = (if closureFailureCount v2 \<ge> thresholdArg
                             then v2\<lparr>closureIsOpen := True\<rparr> else v2)
                   in (Thrown message, now + elapsed, v3)))"

subsection \<open>The two categories of the classifier\<close>

text \<open>The client and authentication category and the transient category, named after the
  canonical sets of the specification; a message matches a member of a set as the patterns of
  \<open>isRetryableError\<close> match it.\<close>

definition matchesClient :: "string \<Rightarrow> bool" where
  "matchesClient m =
     (contains ''400'' m \<or> contains ''401'' m \<or> contains ''403'' m
      \<or> contains ''404'' m \<or> contains ''422'' m)"

definition matchesTransient :: "string \<Rightarrow> bool" where
  "matchesTransient m =
     (contains ''TIMEOUT'' (map toUpperCase m) \<or> contains ''429'' m
      \<or> contains ''500'' m \<or> contains ''502'' m \<or> contains ''503'' m \<or> contains ''504'' m
      \<or> contains ''NETWORK'' (map toUpperCase m)
      \<or> contains ''CONNECTION'' (map toUpperCase m))"

subsection \<open>Sequences of calls of the circuit breaker\<close>

text \<open>Failures recorded at the given times, and checks made at the given times with the
  answers of \<open>isCircuitBreakerOpen\<close> (\<open>admit()\<close> of the specification is its negation).\<close>

fun failuresAt :: "int list \<Rightarrow> ErrorHandler \<Rightarrow> ErrorHandler" where
  "failuresAt [] h = h"
| "failuresAt (t # ts) h = failuresAt ts (incrementCircuitBreakerFailures (h\<lparr>clock := t\<rparr>))"

fun checksAt :: "int list \<Rightarrow> ErrorHandler \<Rightarrow> bool list \<times> ErrorHandler" where
  "checksAt [] h = ([], h)"
| "checksAt (t # ts) h =
     (let (b, h1) = isCircuitBreakerOpen (h\<lparr>clock := t\<rparr>);
          (bs, h2) = checksAt ts h1
      in (b # bs, h2))"

subsection \<open>Concrete inputs\<close>

text \<open>The settings that \<open>initializeSettings\<close> sets, read back from the form.\<close>

definition defaultSettings :: Settings where
  "defaultSettings =
     \<lparr>maxRetriesField = 3, baseDelayField = 1000, backoffTypeField = ''exponential'',
      requestTimeoutField = 5000\<rparr>"

text \<open>Random numbers under which every request takes 700 ms and, where the simulator
  draws for a failure, fails.\<close>

definition steadyDraws :: "nat \<Rightarrow> Draw" where
  "steadyDraws attempt = \<lparr>requestTime = 700, chance = 0.3\<rparr>"

text \<open>Random numbers under which every request takes \<open>t\<close> ms and, where the simulator
  draws for a failure, succeeds.\<close>

definition luckyDraws :: "int \<Rightarrow> nat \<Rightarrow> Draw" where
  "luckyDraws t attempt = \<lparr>requestTime = t, chance = 0.9\<rparr>"

text \<open>A fresh handler after two calls that succeeded at their first attempt, in 501 ms and
  in 502 ms.\<close>

definition afterTwoSuccesses :: ErrorHandler where
  "afterTwoSuccesses =
     snd (makeRequestWithRetry (luckyDraws 502) ''server-error'' defaultSettings
       (snd (makeRequestWithRetry (luckyDraws 501) ''server-error'' defaultSettings
          (newErrorHandler 0))))"

text \<open>An operation that takes no time and always fails with the server error.\<close>

definition instantServerError :: "nat \<Rightarrow> int \<Rightarrow> int \<times> settled" where
  "instantServerError attempt now = (0, Rejected ''Internal Server Error (500)'')"

text \<open>A fresh handler whose breaker three failures have opened, the last at time 300.\<close>

definition openedHandler :: ErrorHandler where
  "openedHandler = failuresAt [100, 200, 300] (newErrorHandler 0)"

section \<open>Properties\<close>

subsection \<open>Auxiliary facts\<close>

declare makeRequestLoop.simps [simp del]

declare bitLength.simps [simp del]


lemma isRetryableError_iff:
  "isRetryableError m = (\<not> matchesClient m \<and> matchesTransient m)"
  by (auto simp add: isRetryableError_def nonRetryablePatterns_def retryablePatterns_def
        test_def toUpperCase_def matchesClient_def matchesTransient_def)

lemma circuitOpenMessage_terminal:
  "\<not> isRetryableError ''Circuit breaker is open - blocking request''"
  by (simp add: isRetryableError_def nonRetryablePatterns_def
              retryablePatterns_def test_def toUpperCase_def)

lemma isCircuitBreakerOpen_cases:
  assumes "isCircuitBreakerOpen h = (b, h')"
  shows "(b \<and> h' = h \<and> isOpen (circuitBreakerState h))
       \<or> (\<not> b \<and> h' = h \<and> \<not> isOpen (circuitBreakerState h))
       \<or> (\<not> b \<and> h' = resetCircuitBreaker h \<and> isOpen (circuitBreakerState h))"
  using assms by (auto simp: isCircuitBreakerOpen_def Let_def split: if_splits)

lemma isCircuitBreakerOpen_keeps:
  assumes "isCircuitBreakerOpen h = (b, h')"
  shows "stats h' = stats h \<and> maxRetries h' = maxRetries h \<and> clock h' = clock h
       \<and> invoked h' = invoked h \<and> slept h' = slept h \<and> baseDelay h' = baseDelay h
       \<and> backoffType h' = backoffType h"
  using isCircuitBreakerOpen_cases [OF assms] by (auto simp: resetCircuitBreaker_def)

lemma tryBlock_Inr:
  assumes "tryBlock api st a h = (Inr r, h1)"
  shows "maxRetries h1 = maxRetries h
       \<and> totalRequests (stats h1) = totalRequests (stats h)
       \<and> successfulRequests (stats h1) = successfulRequests (stats h) + 1
       \<and> failedRequests (stats h1) = failedRequests (stats h)
       \<and> totalRetries (stats h1) = totalRetries (stats h)
       \<and> responseTimes (stats h1) = responseTimes (stats h) @ [clock h1 - st]
       \<and> slept h1 = slept h
       \<and> (\<exists>d. api a (clock h) = (d, Resolved r) \<and> clock h1 = clock h + d
            \<and> invoked h1 = invoked h @ [\<lparr>attemptIndex = a, calledAt = clock h, pendingFor = d\<rparr>])
       \<and> \<not> isOpen (circuitBreakerState h1) \<and> failureCount (circuitBreakerState h1) = 0"
  using assms
  by (auto simp: tryBlock_def isCircuitBreakerOpen_def resetCircuitBreaker_def Let_def
           split: if_splits prod.splits settled.splits)

lemma tryBlock_Inl:
  assumes "tryBlock api st a h = (Inl e, h1)"
  shows "maxRetries h1 = maxRetries h \<and> stats h1 = stats h \<and> slept h1 = slept h
       \<and> baseDelay h1 = baseDelay h \<and> backoffType h1 = backoffType h
       \<and> ((e = ''Circuit breaker is open - blocking request'' \<and> fst (isCircuitBreakerOpen h) \<and> invoked h1 = invoked h
             \<and> clock h1 = clock h)
          \<or> (\<not> fst (isCircuitBreakerOpen h) \<and>
              (\<exists>d. api a (clock h) = (d, Rejected e) \<and> clock h1 = clock h + d
                 \<and> invoked h1 = invoked h @ [\<lparr>attemptIndex = a, calledAt = clock h, pendingFor = d\<rparr>])))"
  using assms
  by (auto simp: tryBlock_def isCircuitBreakerOpen_def resetCircuitBreaker_def Let_def 
           split: if_splits prod.splits settled.splits)

lemma catchBlock_Retry:
  assumes "catchBlock e a h = Retry a1 h2"
  shows "a1 = a + 1 \<and> int a1 \<le> maxRetries h2 \<and> maxRetries h2 = maxRetries h
       \<and> isRetryableError e
       \<and> totalRequests (stats h2) = totalRequests (stats h)
       \<and> successfulRequests (stats h2) = successfulRequests (stats h)
       \<and> failedRequests (stats h2) = failedRequests (stats h)
       \<and> totalRetries (stats h2) = totalRetries (stats h) + 1
       \<and> responseTimes (stats h2) = responseTimes (stats h)
       \<and> invoked h2 = invoked h
       \<and> slept h2 = slept h @ [calculateBackoffDelay h a]
       \<and> clock h2 = clock h + timerDelay (calculateBackoffDelay h a)"
  using assms
  by (auto simp: catchBlock_def incrementCircuitBreakerFailures_def delay_def Let_def
        calculateBackoffDelay_def split: if_splits)

lemma catchBlock_Rethrow:
  assumes "catchBlock e a h = Rethrow e' h2"
  shows "e' = e \<and> (maxRetries h < int a + 1 \<or> \<not> isRetryableError e)
       \<and> maxRetries h2 = maxRetries h
       \<and> totalRequests (stats h2) = totalRequests (stats h)
       \<and> successfulRequests (stats h2) = successfulRequests (stats h)
       \<and> failedRequests (stats h2) = failedRequests (stats h) + 1
       \<and> totalRetries (stats h2) = totalRetries (stats h)
       \<and> responseTimes (stats h2) = responseTimes (stats h)
       \<and> invoked h2 = invoked h \<and> slept h2 = slept h \<and> clock h2 = clock h"
  using assms
  by (auto simp: catchBlock_def incrementCircuitBreakerFailures_def delay_def Let_def
        split: if_splits)

lemma makeRequestLoop_counters:
  assumes "makeRequestLoop api st a h = (c, h')" and "int a \<le> maxRetries h"
  shows "totalRequests (stats h') = totalRequests (stats h)
       \<and> ((\<exists>r. c = Returned (Result r)
              \<and> successfulRequests (stats h') = successfulRequests (stats h) + 1
              \<and> failedRequests (stats h') = failedRequests (stats h)
              \<and> responseTimes (stats h') = responseTimes (stats h) @ [clock h' - st])
          \<or> (\<exists>e. c = Thrown e
              \<and> successfulRequests (stats h') = successfulRequests (stats h)
              \<and> failedRequests (stats h') = failedRequests (stats h) + 1
              \<and> responseTimes (stats h') = responseTimes (stats h)))"
  using assms
proof (induction api st a h arbitrary: c h' rule: makeRequestLoop.induct)
  case (1 api st a h)
  obtain x h1 where t: "tryBlock api st a h = (x, h1)"
    by (cases "tryBlock api st a h")
  show ?case
  proof (cases x)
    case (Inr r)
    with t "1.prems" have "c = Returned (Result r)" "h' = h1"
      by (simp_all add: makeRequestLoop.simps)
    with tryBlock_Inr [OF t [unfolded Inr]] show ?thesis
      by simp
  next
    case (Inl e)
    note tl = tryBlock_Inl [OF t [unfolded Inl]]
    show ?thesis
    proof (cases "catchBlock e a h1")
      case (Rethrow e' h2)
      with t Inl "1.prems" have "c = Thrown e'" "h' = h2"
        by (simp_all add: makeRequestLoop.simps)
      with catchBlock_Rethrow [OF Rethrow] tl show ?thesis
        by simp
    next
      case (Retry a1 h2)
      note cr = catchBlock_Retry [OF Retry]
      from t Inl Retry "1.prems" have run: "makeRequestLoop api st a1 h2 = (c, h')"
        by (simp add: makeRequestLoop.simps)
      from cr have le: "int a1 \<le> maxRetries h2"
        by simp
      from "1.IH" [OF "1.prems"(2) t [symmetric] Inl Retry run le] cr tl show ?thesis
        by simp
    qed
  qed
qed

lemma makeRequestLoop_trace:
  assumes "makeRequestLoop api st a h = (c, h')" and "int a \<le> maxRetries h"
  shows "\<exists>inv sl. invoked h' = invoked h @ inv \<and> slept h' = slept h @ sl
       \<and> clock h' = clock h + sum_list (map pendingFor inv) + sum_list (map timerDelay sl)
       \<and> totalRetries (stats h') = totalRetries (stats h) + length sl
       \<and> ((\<exists>r. c = Returned (Result r) \<and> inv \<noteq> [] \<and> length inv = length sl + 1
              \<and> api (attemptIndex (last inv)) (calledAt (last inv))
                  = (pendingFor (last inv), Resolved r))
          \<or> (\<exists>e. c = Thrown e
              \<and> ((e = ''Circuit breaker is open - blocking request'' \<and> length inv = length sl)
                 \<or> (inv \<noteq> [] \<and> length inv = length sl + 1
                    \<and> api (attemptIndex (last inv)) (calledAt (last inv))
                        = (pendingFor (last inv), Rejected e)))))"
  using assms
proof (induction api st a h arbitrary: c h' rule: makeRequestLoop.induct)
  case (1 api st a h)
  obtain x h1 where t: "tryBlock api st a h = (x, h1)"
    by (cases "tryBlock api st a h")
  show ?case
  proof (cases x)
    case (Inr r)
    with t "1.prems" have ch: "c = Returned (Result r)" "h' = h1"
      by (simp_all add: makeRequestLoop.simps)
    from tryBlock_Inr [OF t [unfolded Inr]] obtain d where
      d: "api a (clock h) = (d, Resolved r)" "clock h1 = clock h + d"
         "invoked h1 = invoked h @ [\<lparr>attemptIndex = a, calledAt = clock h, pendingFor = d\<rparr>]"
      and k: "slept h1 = slept h" "totalRetries (stats h1) = totalRetries (stats h)"
      by auto
    show ?thesis
      apply (rule exI [of _ "[\<lparr>attemptIndex = a, calledAt = clock h, pendingFor = d\<rparr>]"])
      apply (rule exI [of _ "[]"])
      using ch d k by simp
  next
    case (Inl e)
    note tl = tryBlock_Inl [OF t [unfolded Inl]]
    from tl obtain inv0 where
      i0: "invoked h1 = invoked h @ inv0" "clock h1 = clock h + sum_list (map pendingFor inv0)"
          "(e = ''Circuit breaker is open - blocking request'' \<and> inv0 = [])
           \<or> (inv0 \<noteq> [] \<and> length inv0 = 1 \<and> api (attemptIndex (last inv0)) (calledAt (last inv0))
                        = (pendingFor (last inv0), Rejected e))"
      by (elim conjE disjE exE) (rule that [of "[]"], simp_all, rule that [of "[\<lparr>attemptIndex = a, calledAt = clock h, pendingFor = _\<rparr>]"], simp_all)
    show ?thesis
    proof (cases "catchBlock e a h1")
      case (Rethrow e' h2)
      with t Inl "1.prems" have ch: "c = Thrown e'" "h' = h2"
        by (simp_all add: makeRequestLoop.simps)
      show ?thesis
        apply (rule exI [of _ inv0])
        apply (rule exI [of _ "[]"])
        using ch catchBlock_Rethrow [OF Rethrow] tl i0 by auto
    next
      case (Retry a1 h2)
      note cr = catchBlock_Retry [OF Retry]
      from t Inl Retry "1.prems" have run: "makeRequestLoop api st a1 h2 = (c, h')"
        by (simp add: makeRequestLoop.simps)
      from cr have le: "int a1 \<le> maxRetries h2"
        by simp
      from cr have retr: "isRetryableError e" by simp
      note circuitOpenMessage_terminal
      with retr i0 have one: "length inv0 = 1" by auto
      from "1.IH" [OF "1.prems"(2) t [symmetric] Inl Retry run le]
      obtain inv sl where
        r: "invoked h' = invoked h2 @ inv" "slept h' = slept h2 @ sl"
           "clock h' = clock h2 + sum_list (map pendingFor inv) + sum_list (map timerDelay sl)"
           "totalRetries (stats h') = totalRetries (stats h2) + length sl"
           "(\<exists>r. c = Returned (Result r) \<and> inv \<noteq> [] \<and> length inv = length sl + 1
              \<and> api (attemptIndex (last inv)) (calledAt (last inv))
                  = (pendingFor (last inv), Resolved r))
          \<or> (\<exists>e. c = Thrown e
              \<and> ((e = ''Circuit breaker is open - blocking request'' \<and> length inv = length sl)
                 \<or> (inv \<noteq> [] \<and> length inv = length sl + 1
                    \<and> api (attemptIndex (last inv)) (calledAt (last inv))
                        = (pendingFor (last inv), Rejected e))))"
        by blast
      show ?thesis
        apply (rule exI [of _ "inv0 @ inv"])
        apply (rule exI [of _ "calculateBackoffDelay h1 a # sl"])
        using r cr tl i0(1,2) one by auto
    qed
  qed
qed

lemma incrementCircuitBreakerFailures_state:
  "failureCount (circuitBreakerState (incrementCircuitBreakerFailures h))
     = Suc (failureCount (circuitBreakerState h))
   \<and> lastFailureTime (circuitBreakerState (incrementCircuitBreakerFailures h)) = Some (clock h)
   \<and> isOpen (circuitBreakerState (incrementCircuitBreakerFailures h))
     = (isOpen (circuitBreakerState h)
        \<or> threshold (circuitBreakerState h) \<le> Suc (failureCount (circuitBreakerState h)))
   \<and> threshold (circuitBreakerState (incrementCircuitBreakerFailures h))
     = threshold (circuitBreakerState h)
   \<and> timeout (circuitBreakerState (incrementCircuitBreakerFailures h))
     = timeout (circuitBreakerState h)"
  by (simp add: incrementCircuitBreakerFailures_def Let_def)

lemma tryBlock_rejected:
  assumes "\<not> fst (isCircuitBreakerOpen h)" and "api a (clock h) = (d, Rejected m)"
  shows "\<exists>h1. tryBlock api st a h = (Inl m, h1)
       \<and> circuitBreakerState h1 = circuitBreakerState (snd (isCircuitBreakerOpen h))
       \<and> clock h1 = clock h + d
       \<and> invoked h1 = invoked h @ [\<lparr>attemptIndex = a, calledAt = clock h, pendingFor = d\<rparr>]
       \<and> slept h1 = slept h \<and> stats h1 = stats h \<and> maxRetries h1 = maxRetries h
       \<and> baseDelay h1 = baseDelay h \<and> backoffType h1 = backoffType h"
  using assms
  by (auto simp: tryBlock_def isCircuitBreakerOpen_def resetCircuitBreaker_def Let_def
           split: if_splits)

lemma tryBlock_blocked:
  assumes "fst (isCircuitBreakerOpen h)"
  shows "\<exists>h1. tryBlock api st a h = (Inl ''Circuit breaker is open - blocking request'', h1)
       \<and> circuitBreakerState h1 = circuitBreakerState h
       \<and> clock h1 = clock h \<and> invoked h1 = invoked h
       \<and> slept h1 = slept h \<and> stats h1 = stats h \<and> maxRetries h1 = maxRetries h
       \<and> baseDelay h1 = baseDelay h \<and> backoffType h1 = backoffType h"
  using assms
  by (auto simp: tryBlock_def isCircuitBreakerOpen_def resetCircuitBreaker_def Let_def
           split: if_splits)


lemma catchBlock_rethrows:
  assumes "maxRetries h \<le> int a \<or> \<not> isRetryableError m"
  shows "\<exists>h2. catchBlock m a h = Rethrow m h2
       \<and> circuitBreakerState h2 = circuitBreakerState (incrementCircuitBreakerFailures h)
       \<and> clock h2 = clock h \<and> invoked h2 = invoked h \<and> slept h2 = slept h
       \<and> totalRetries (stats h2) = totalRetries (stats h)
       \<and> totalRequests (stats h2) = totalRequests (stats h)
       \<and> failedRequests (stats h2) = Suc (failedRequests (stats h))
       \<and> successfulRequests (stats h2) = successfulRequests (stats h)
       \<and> responseTimes (stats h2) = responseTimes (stats h)"
  using assms
  by (auto simp add: catchBlock_def incrementCircuitBreakerFailures_def Let_def)


lemma makeRequestLoop_rethrow:
  assumes "int a \<le> maxRetries h" and "tryBlock api st a h = (Inl m, h1)"
    and "catchBlock m a h1 = Rethrow e h2"
  shows "makeRequestLoop api st a h = (Thrown e, h2)"
  using assms by (simp add: makeRequestLoop.simps [of api st a h])

lemma isCircuitBreakerOpen_closed:
  "\<not> isOpen (circuitBreakerState h) \<Longrightarrow> isCircuitBreakerOpen h = (False, h)"
  by (simp add: isCircuitBreakerOpen_def)

lemma isCircuitBreakerOpen_waiting:
  "isOpen (circuitBreakerState h) \<Longrightarrow> lastFailureTime (circuitBreakerState h) = Some l \<Longrightarrow>
   clock h - l < timeout (circuitBreakerState h) \<Longrightarrow> isCircuitBreakerOpen h = (True, h)"
  by (simp add: isCircuitBreakerOpen_def)

lemma isCircuitBreakerOpen_elapsed:
  "isOpen (circuitBreakerState h) \<Longrightarrow> lastFailureTime (circuitBreakerState h) = Some l \<Longrightarrow>
   timeout (circuitBreakerState h) \<le> clock h - l \<Longrightarrow>
   isCircuitBreakerOpen h = (False, resetCircuitBreaker h)"
  by (simp add: isCircuitBreakerOpen_def)


lemma blocked_attempt_thrown:
  assumes blocked: "fst (isCircuitBreakerOpen h)"
    and budget: "int a \<le> maxRetries h"
  shows "\<exists>h2. makeRequestLoop api st a h
           = (Thrown ''Circuit breaker is open - blocking request'', h2)
       \<and> failureCount (circuitBreakerState h2) = Suc (failureCount (circuitBreakerState h))
       \<and> lastFailureTime (circuitBreakerState h2) = Some (clock h)
       \<and> isOpen (circuitBreakerState h2)
       \<and> threshold (circuitBreakerState h2) = threshold (circuitBreakerState h)
       \<and> timeout (circuitBreakerState h2) = timeout (circuitBreakerState h)
       \<and> clock h2 = clock h \<and> invoked h2 = invoked h \<and> slept h2 = slept h
       \<and> totalRetries (stats h2) = totalRetries (stats h)
       \<and> totalRequests (stats h2) = totalRequests (stats h)
       \<and> failedRequests (stats h2) = Suc (failedRequests (stats h))
       \<and> successfulRequests (stats h2) = successfulRequests (stats h)
       \<and> responseTimes (stats h2) = responseTimes (stats h)"
proof -
  from blocked have op: "isOpen (circuitBreakerState h)"
    by (auto simp: isCircuitBreakerOpen_def split: if_splits)
  from tryBlock_blocked [OF blocked, of api st a] obtain h1 where
    t: "tryBlock api st a h = (Inl ''Circuit breaker is open - blocking request'', h1)"
    and h1: "circuitBreakerState h1 = circuitBreakerState h" "clock h1 = clock h"
      "invoked h1 = invoked h" "slept h1 = slept h" "stats h1 = stats h"
      "maxRetries h1 = maxRetries h"
    by auto
  from catchBlock_rethrows [of h1 a "''Circuit breaker is open - blocking request''"]
    circuitOpenMessage_terminal
  obtain h2 where
    c: "catchBlock ''Circuit breaker is open - blocking request'' a h1
          = Rethrow ''Circuit breaker is open - blocking request'' h2"
    and h2: "circuitBreakerState h2 = circuitBreakerState (incrementCircuitBreakerFailures h1)"
      "clock h2 = clock h1" "invoked h2 = invoked h1" "slept h2 = slept h1"
      "totalRetries (stats h2) = totalRetries (stats h1)"
      "totalRequests (stats h2) = totalRequests (stats h1)"
      "failedRequests (stats h2) = Suc (failedRequests (stats h1))"
      "successfulRequests (stats h2) = successfulRequests (stats h1)"
      "responseTimes (stats h2) = responseTimes (stats h1)"
    by auto
  from makeRequestLoop_rethrow [OF budget t c] h1 h2 op
    incrementCircuitBreakerFailures_state [of h1]
  show ?thesis
    by (intro exI [of _ h2]) simp
qed

lemma failed_attempt_thrown:
  assumes admitted: "\<not> fst (isCircuitBreakerOpen h)"
    and api: "api a (clock h) = (d, Rejected m)"
    and final: "maxRetries h \<le> int a \<or> \<not> isRetryableError m"
    and budget: "int a \<le> maxRetries h"
  shows "\<exists>h2. makeRequestLoop api st a h = (Thrown m, h2)
       \<and> failureCount (circuitBreakerState h2)
           = Suc (failureCount (circuitBreakerState (snd (isCircuitBreakerOpen h))))
       \<and> lastFailureTime (circuitBreakerState h2) = Some (clock h + d)
       \<and> clock h2 = clock h + d
       \<and> invoked h2 = invoked h @ [\<lparr>attemptIndex = a, calledAt = clock h, pendingFor = d\<rparr>]
       \<and> slept h2 = slept h
       \<and> totalRetries (stats h2) = totalRetries (stats h)
       \<and> totalRequests (stats h2) = totalRequests (stats h)
       \<and> failedRequests (stats h2) = Suc (failedRequests (stats h))
       \<and> successfulRequests (stats h2) = successfulRequests (stats h)
       \<and> responseTimes (stats h2) = responseTimes (stats h)"
proof -
  from tryBlock_rejected [where h = h and api = api and a = a and d = d and m = m and st = st]
    admitted api obtain h1 where
    t: "tryBlock api st a h = (Inl m, h1)"
    and h1: "circuitBreakerState h1 = circuitBreakerState (snd (isCircuitBreakerOpen h))"
      "clock h1 = clock h + d"
      "invoked h1 = invoked h @ [\<lparr>attemptIndex = a, calledAt = clock h, pendingFor = d\<rparr>]"
      "slept h1 = slept h" "stats h1 = stats h" "maxRetries h1 = maxRetries h"
    by auto
  from final h1 have "maxRetries h1 \<le> int a \<or> \<not> isRetryableError m"
    by simp
  from catchBlock_rethrows [OF this] obtain h2 where
    c: "catchBlock m a h1 = Rethrow m h2"
    and h2: "circuitBreakerState h2 = circuitBreakerState (incrementCircuitBreakerFailures h1)"
      "clock h2 = clock h1" "invoked h2 = invoked h1" "slept h2 = slept h1"
      "totalRetries (stats h2) = totalRetries (stats h1)"
      "totalRequests (stats h2) = totalRequests (stats h1)"
      "failedRequests (stats h2) = Suc (failedRequests (stats h1))"
      "successfulRequests (stats h2) = successfulRequests (stats h1)"
      "responseTimes (stats h2) = responseTimes (stats h1)"
    by auto
  from makeRequestLoop_rethrow [OF budget t c] h1 h2
    incrementCircuitBreakerFailures_state [of h1]
  show ?thesis
    by (intro exI [of _ h2]) simp
qed

lemma failuresAt_opens:
  assumes "ts \<noteq> []"
    and "threshold (circuitBreakerState h) \<le> failureCount (circuitBreakerState h) + length ts"
  shows "isOpen (circuitBreakerState (failuresAt ts h))
       \<and> lastFailureTime (circuitBreakerState (failuresAt ts h)) = Some (last ts)
       \<and> failureCount (circuitBreakerState (failuresAt ts h))
           = failureCount (circuitBreakerState h) + length ts
       \<and> threshold (circuitBreakerState (failuresAt ts h)) = threshold (circuitBreakerState h)
       \<and> timeout (circuitBreakerState (failuresAt ts h)) = timeout (circuitBreakerState h)"
  using assms
proof (induction ts arbitrary: h)
  case Nil
  then show ?case by simp
next
  case (Cons t ts)
  let ?h1 = "incrementCircuitBreakerFailures (h\<lparr>clock := t\<rparr>)"
  note st = incrementCircuitBreakerFailures_state [of "h\<lparr>clock := t\<rparr>"]
  show ?case
  proof (cases "ts = []")
    case True
    with Cons.prems st show ?thesis by simp
  next
    case False
    from Cons.prems st
    have "threshold (circuitBreakerState ?h1) \<le> failureCount (circuitBreakerState ?h1) + length ts"
      by simp
    from Cons.IH [OF False this] st False show ?thesis by simp
  qed
qed

lemma checksAt_waiting:
  assumes "isOpen (circuitBreakerState h)"
    and "lastFailureTime (circuitBreakerState h) = Some l"
    and "\<forall>t \<in> set ts. t - l < timeout (circuitBreakerState h)"
  shows "fst (checksAt ts h) = replicate (length ts) True
       \<and> circuitBreakerState (snd (checksAt ts h)) = circuitBreakerState h"
  using assms
proof (induction ts arbitrary: h)
  case Nil
  then show ?case by simp
next
  case (Cons t ts)
  from Cons.prems have w: "isCircuitBreakerOpen (h\<lparr>clock := t\<rparr>) = (True, h\<lparr>clock := t\<rparr>)"
    by (intro isCircuitBreakerOpen_waiting [of _ l]) simp_all
  from Cons.prems Cons.IH [of "h\<lparr>clock := t\<rparr>"] w show ?case
    by (simp add: split_def)
qed

lemma checksAt_closed:
  assumes "\<not> isOpen (circuitBreakerState h)"
  shows "fst (checksAt ts h) = replicate (length ts) False
       \<and> circuitBreakerState (snd (checksAt ts h)) = circuitBreakerState h"
  using assms
proof (induction ts arbitrary: h)
  case Nil
  then show ?case by simp
next
  case (Cons t ts)
  from Cons.prems have w: "isCircuitBreakerOpen (h\<lparr>clock := t\<rparr>) = (False, h\<lparr>clock := t\<rparr>)"
    by (intro isCircuitBreakerOpen_closed) simp
  from Cons.prems Cons.IH [of "h\<lparr>clock := t\<rparr>"] w show ?case
    by (simp add: split_def)
qed


lemma makeRequestWithRetryOn_loop:
  "\<exists>h3. makeRequestWithRetryOn api form h = makeRequestLoop api (clock h) 0 h3
     \<and> maxRetries h3 = maxRetriesField form \<and> baseDelay h3 = baseDelayField form
     \<and> backoffType h3 = backoffTypeField form
     \<and> circuitBreakerState h3 = circuitBreakerState h \<and> clock h3 = clock h
     \<and> invoked h3 = invoked h \<and> slept h3 = slept h
     \<and> totalRequests (stats h3) = Suc (totalRequests (stats h))
     \<and> successfulRequests (stats h3) = successfulRequests (stats h)
     \<and> failedRequests (stats h3) = failedRequests (stats h)
     \<and> totalRetries (stats h3) = totalRetries (stats h)
     \<and> responseTimes (stats h3) = responseTimes (stats h)"
  apply (simp add: makeRequestWithRetryOn_def updateSettings_def Let_def)
  apply (rule exI, intro conjI, rule refl)
  apply simp_all
  done

lemma isCircuitBreakerOpen_depends:
  assumes "circuitBreakerState h3 = circuitBreakerState h" and "clock h3 = clock h"
  shows "fst (isCircuitBreakerOpen h3) = fst (isCircuitBreakerOpen h)
       \<and> circuitBreakerState (snd (isCircuitBreakerOpen h3))
           = circuitBreakerState (snd (isCircuitBreakerOpen h))"
  using assms by (simp add: isCircuitBreakerOpen_def resetCircuitBreaker_def Let_def)

lemma makeRequestLoop_exhausted:
  "maxRetries h < int a \<Longrightarrow> makeRequestLoop api st a h = (Returned Undefined, h)"
  by (simp add: makeRequestLoop.simps [of api st a h])

lemma bitLength_bounds:
  "0 < x \<Longrightarrow> 2 ^ (bitLength x - 1) \<le> x \<and> x < 2 ^ bitLength x \<and> 0 < bitLength x"
proof (induction x rule: bitLength.induct)
  case (1 x)
  show ?case
  proof (cases "x div 2 \<le> 0")
    case True
    with "1.prems" have "x = 1" by linarith
    then show ?thesis by (simp add: bitLength.simps)
  next
    case False
    then have pos: "0 < x div 2" by simp
    from "1.prems" have nz: "\<not> x \<le> 0" by simp
    from "1.IH" [OF nz pos] have ih: "2 ^ (bitLength (x div 2) - 1) \<le> x div 2"
      "x div 2 < 2 ^ bitLength (x div 2)" "0 < bitLength (x div 2)"
      by simp_all
    have b: "bitLength x = Suc (bitLength (x div 2))"
      using nz by (subst bitLength.simps) simp
    from ih(3) obtain j where j: "bitLength (x div 2) = Suc j"
      by (cases "bitLength (x div 2)") simp_all
    from ih(1) j have "2 * 2 ^ j \<le> 2 * (x div 2)" by simp
    also have "\<dots> \<le> x" by simp
    finally have lo: "2 ^ (bitLength x - 1) \<le> x" using b j by simp
    from ih(2) have "x div 2 + 1 \<le> 2 ^ bitLength (x div 2)" by simp
    then have "2 * (x div 2) + 2 \<le> 2 * 2 ^ bitLength (x div 2)" by simp
    moreover have "x \<le> 2 * (x div 2) + 1" by linarith
    ultimately have hi: "x < 2 ^ bitLength x" using b by simp
    from lo hi b show ?thesis by simp
  qed
qed

lemma bitLength_le: "x < 2 ^ e \<Longrightarrow> bitLength x \<le> e"
proof (cases "0 < x")
  case True
  assume "x < 2 ^ e"
  moreover from bitLength_bounds [OF True] have "2 ^ (bitLength x - 1) \<le> x" by simp
  ultimately have "(2::int) ^ (bitLength x - 1) < 2 ^ e" by linarith
  then have "bitLength x - 1 < e" by (rule power_less_imp_less_exp [rotated]) simp
  then show ?thesis by simp
next
  case False
  then show ?thesis by (simp add: bitLength.simps)
qed

lemma roundToDouble_boundary:
  "roundToDouble (2 ^ 53) = Finite (2 ^ 53)" "roundToDouble (- (2 ^ 53)) = Finite (- (2 ^ 53))"
  by code_simp+

text \<open>Integers up to \<open>2 ^ 53\<close> are doubles.\<close>

lemma roundToDouble_exact: "\<bar>x\<bar> \<le> 2 ^ 53 \<Longrightarrow> roundToDouble x = Finite x"
proof (cases "\<bar>x\<bar> < 2 ^ 53")
  case True
  then have "bitLength \<bar>x\<bar> \<le> 53" by (rule bitLength_le)
  then show ?thesis by (simp add: roundToDouble_def)
next
  case False
  assume "\<bar>x\<bar> \<le> 2 ^ 53"
  with False have "x = 2 ^ 53 \<or> x = - (2 ^ 53)" by linarith
  then show ?thesis
    using roundToDouble_boundary by auto
qed

lemma nearestEven_bounds:
  assumes "0 < q"
  shows "2 * (nearestEven p q * q) - q \<le> 2 * p \<and> 2 * p \<le> 2 * (nearestEven p q * q) + q"
proof -
  define d where "d = p div q"
  define r where "r = p mod q"
  have "p = d * q + r"
    unfolding d_def r_def by (rule div_mult_mod_eq [symmetric])
  then have p: "2 * p = 2 * (d * q) + 2 * r"
    by simp
  have r: "0 \<le> r" "r < q"
    using assms by (simp_all add: r_def)
  have n: "nearestEven p q = (if 2 * r < q then d else if 2 * r > q then d + 1
      else if even d then d else d + 1)"
    by (simp add: nearestEven_def d_def r_def Let_def)
  show ?thesis
    unfolding n p using r by (auto simp: algebra_simps)
qed

lemma div_eqI: "0 < b \<Longrightarrow> c * b \<le> a \<Longrightarrow> a < (c + 1) * b \<Longrightarrow> a div b = (c::int)"
  by (rule int_div_pos_eq [of a b c "a - b * c"]) (simp_all add: algebra_simps)

lemma div_times_le:
  assumes "0 < (n::int)"
  shows "a div n * n \<le> a" and "a < a div n * n + n"
proof -
  have "a = a div n * n + a mod n"
    by (rule div_mult_mod_eq [symmetric])
  moreover have "0 \<le> a mod n" "a mod n < n"
    using assms by simp_all
  ultimately show "a div n * n \<le> a" and "a < a div n * n + n"
    by linarith+
qed

text \<open>Sums of durations below \<open>2 ^ 53\<close> are exact.\<close>

lemma sum_exact:
  assumes "\<forall>x \<in> set xs. 0 \<le> x" and "0 \<le> a" and "a + sum_list xs \<le> 2 ^ 53"
  shows "foldl addNumbers (Finite a) (map Finite xs) = Finite (a + sum_list xs)"
  using assms
proof (induction xs arbitrary: a)
  case Nil
  then show ?case by simp
next
  case (Cons x xs)
  from Cons.prems have x: "0 \<le> x" and rest: "\<forall>y \<in> set xs. 0 \<le> y" by simp_all
  from rest have "0 \<le> sum_list xs" by (simp add: sum_list_nonneg)
  with Cons.prems x have "\<bar>a + x\<bar> \<le> 2 ^ 53" by simp
  then have "addNumbers (Finite a) (Finite x) = Finite (a + x)"
    by (simp add: roundToDouble_exact)
  moreover from Cons.prems x have "0 \<le> a + x" "(a + x) + sum_list xs \<le> 2 ^ 53" by simp_all
  ultimately show ?case
    using Cons.IH [OF rest, of "a + x"] by (simp add: add.assoc)
qed

text \<open>For a sum below \<open>2 ^ 52\<close> the double quotient, rounded by \<open>Math.round\<close>, is the exact
  quotient rounded to the nearest integer, halves up.\<close>

lemma quotient_rounds_to_nearest:
  assumes s: "0 < s" "s < 2 ^ 52" and n: "0 < n" "n < 2 ^ 32"
  shows "mathRound (quotientDouble s n) = (2 * s + n) div (2 * n)"
proof -
  define K where "K = bitLength n"
  define Q where "Q = s * 2 ^ K div n"
  define f where "f = bitLength Q"
  from bitLength_bounds [OF n(1)] have K: "2 ^ (K - 1) \<le> n" "n < 2 ^ K" "0 < K"
    by (simp_all add: K_def)
  from n(2) have K32: "K \<le> 32"
    unfolding K_def by (rule bitLength_le)
  from K(3) have "(2::int) ^ K = 2 * 2 ^ (K - 1)"
    by (cases K) simp_all
  with K(1) have K2: "2 ^ K \<le> 2 * n"
    by simp
  have Qn: "Q * n \<le> s * 2 ^ K"
    unfolding Q_def using n(1) by (rule div_times_le)
  have "n * 1 \<le> s * 2 ^ K"
    using K(2) s(1) by (intro order.trans [OF _ mult_right_mono [of 1 s "2 ^ K"]]) simp_all
  then have Q1: "0 < Q"
    unfolding Q_def using n(1) by (simp add: pos_imp_zdiv_pos_iff)
  from bitLength_bounds [OF Q1] have f: "2 ^ (f - 1) \<le> Q" "Q < 2 ^ f" "0 < f"
    by (simp_all add: f_def)
  have "Q * n \<le> s * (2 * n)"
    using Qn K2 s(1) by (meson mult_left_mono order.trans less_imp_le)
  then have "Q * n \<le> (2 * s) * n"
    by (simp add: algebra_simps)
  with n(1) have "Q \<le> 2 * s"
    by simp
  with s(2) have "Q < 2 ^ 53"
    by simp
  then have f53: "f \<le> 53"
    unfolding f_def by (rule bitLength_le)
  define t where "t = 53 + K - f"
  from f53 K(3) have t1: "1 \<le> t"
    by (simp add: t_def)
  from f53 have tsum: "t = (53 - f) + K"
    by (simp add: t_def)
  have e: "max (int f - 1 - int K - 52) (- 1074) = - int t"
    using f53 f(3) K32 by (simp add: t_def)
  have q: "quotientDouble s n = (nearestEven (s * 2 ^ t) n, - int t)"
    using s(1) e by (simp add: quotientDouble_def Let_def K_def [symmetric] Q_def [symmetric]
        f_def [symmetric])
  define m where "m = nearestEven (s * 2 ^ t) n"
  define A where "A = (2::int) ^ (t - 1)"
  from t1 have tA: "(2::int) ^ t = 2 * A"
    unfolding A_def by (cases t) simp_all
  have A1: "1 \<le> A"
    by (simp add: A_def)
  have r: "mathRound (quotientDouble s n) = (2 * m + 2 * A) div (4 * A)"
    using t1 by (simp add: q mathRound_def m_def tA)
  \<comment> \<open>the exponent is large enough\<close>
  have "2 ^ (f - 1) * n \<le> s * 2 ^ K"
    using f(1) Qn n(1) by (meson mult_right_mono order.trans less_imp_le)
  then have "2 ^ (53 - f) * (2 ^ (f - 1) * n) \<le> 2 ^ (53 - f) * (s * 2 ^ K)"
    by (intro mult_left_mono) simp_all
  moreover have "(2::int) ^ (53 - f) * 2 ^ (f - 1) = 2 ^ 52"
    using f53 f(3) by (simp add: power_add [symmetric])
  then have "2 ^ (53 - f) * (2 ^ (f - 1) * n) = 2 ^ 52 * n"
    by (simp only: mult.assoc [symmetric])
  moreover have "(2::int) ^ (53 - f) * 2 ^ K = 2 ^ t"
    using tsum by (simp add: power_add [symmetric])
  then have "2 ^ (53 - f) * (s * 2 ^ K) = s * 2 ^ t"
    by (metis mult.assoc mult.commute)
  ultimately have F1: "2 ^ 52 * n \<le> s * 2 ^ t"
    by (simp only:)
  have "s * 2 ^ t < 2 ^ 52 * 2 ^ t"
    using s(2) by simp
  with F1 have "2 ^ 52 * n < 2 ^ 52 * 2 ^ t"
    by linarith
  then have F2: "n + 1 \<le> 2 * A"
    using tA by simp
  \<comment> \<open>the nearest integer and the rounded quotient\<close>
  have N: "2 * (m * n) - n \<le> 4 * (A * s)" "4 * (A * s) \<le> 2 * (m * n) + n"
    unfolding m_def using nearestEven_bounds [OF n(1), of "s * 2 ^ t"]
    by (simp_all add: tA algebra_simps)
  define R where "R = (2 * s + n) div (2 * n)"
  have "R * (2 * n) \<le> 2 * s + n" "2 * s + n < R * (2 * n) + 2 * n"
    unfolding R_def using n(1) by (intro div_times_le; simp)+
  then have R: "2 * (n * R) \<le> 2 * s + n" "2 * s + n + 1 \<le> 2 * (n * R) + 2 * n"
    by (simp_all add: algebra_simps)
  have RA: "4 * (A * (n * R)) \<le> 4 * (A * s) + 2 * (A * n)"
    using mult_left_mono [OF R(1), of "2 * A"] A1 by (simp add: algebra_simps)
  have RB: "4 * (A * s) + 2 * (A * n) + 2 * A \<le> 4 * (A * (n * R)) + 4 * (A * n)"
    using mult_left_mono [OF R(2), of "2 * A"] A1 by (simp add: algebra_simps)
  have G1: "(2 * R - 1) * A \<le> m"
  proof (rule ccontr)
    assume "\<not> (2 * R - 1) * A \<le> m"
    then have "m \<le> (2 * R - 1) * A - 1" by simp
    from mult_left_mono [OF this, of "2 * n"] n(1)
    have "2 * (m * n) \<le> 4 * (A * (n * R)) - 2 * (A * n) - 2 * n"
      by (simp add: algebra_simps)
    with N(2) RA n(1) show False by linarith
  qed
  have G2: "m < (2 * R + 1) * A"
  proof (rule ccontr)
    assume "\<not> m < (2 * R + 1) * A"
    then have "(2 * R + 1) * A \<le> m" by simp
    from mult_left_mono [OF this, of "2 * n"] n(1)
    have "4 * (A * (n * R)) + 2 * (A * n) \<le> 2 * (m * n)"
      by (simp add: algebra_simps)
    with N(1) RB F2 show False by linarith
  qed
  have "(2 * m + 2 * A) div (4 * A) = R"
  proof (rule div_eqI)
    show "0 < 4 * A" using A1 by simp
    show "R * (4 * A) \<le> 2 * m + 2 * A" using G1 by (simp add: algebra_simps)
    show "2 * m + 2 * A < (R + 1) * (4 * A)" using G2 by (simp add: algebra_simps)
  qed
  with r show ?thesis by (simp add: R_def)
qed

text \<open>What \<open>updateStats\<close> shows for durations that are not negative, fewer than \<open>2 ^ 32\<close> (the
  bound on the length of an array) and of a sum below \<open>2 ^ 52\<close> ms: their mean, rounded to
  the nearest integer, halves up.\<close>

lemma avgResponseTime_rounds:
  assumes "responseTimes st \<noteq> []" and "\<forall>x \<in> set (responseTimes st). 0 \<le> x"
    and "sum_list (responseTimes st) < 2 ^ 52" and "length (responseTimes st) < 2 ^ 32"
  shows "avgResponseTime st
           = Finite \<lfloor>real_of_int (sum_list (responseTimes st))
                       / real (length (responseTimes st)) + 1 / 2\<rfloor>"
proof -
  let ?s = "sum_list (responseTimes st)" and ?n = "length (responseTimes st)"
  from assms(1) have n: "0 < ?n" by simp
  from assms(2) have s0: "0 \<le> ?s" by (simp add: sum_list_nonneg)
  from assms(2,3) have "foldl addNumbers (Finite 0) (map Finite (responseTimes st))
      = Finite (0 + ?s)"
    by (intro sum_exact) simp_all
  then have avg: "avgResponseTime st = roundedQuotient (Finite ?s) (int ?n)"
    using n by (simp add: avgResponseTime_def)
  from n have "real_of_int ?s / real ?n + 1 / 2
      = real_of_int (2 * ?s + int ?n) / real_of_int (2 * int ?n)"
    by (simp add: field_simps)
  then have fl: "\<lfloor>real_of_int ?s / real ?n + 1 / 2\<rfloor> = (2 * ?s + int ?n) div (2 * int ?n)"
    by (simp only: floor_divide_of_int_eq)
  show ?thesis
  proof (cases "?s = 0")
    case True
    with avg n show ?thesis by (simp add: roundedQuotient_def)
  next
    case False
    with s0 have "0 < ?s" by simp
    moreover from assms(4) have "int ?n < 2 ^ 32"
      by (metis of_nat_less_iff of_nat_numeral of_nat_power)
    moreover from n have "0 < int ?n" by simp
    ultimately have "mathRound (quotientDouble ?s (int ?n)) = (2 * ?s + int ?n) div (2 * int ?n)"
      using assms(3) by (intro quotient_rounds_to_nearest)
    with avg False fl show ?thesis by (simp add: roundedQuotient_def)
  qed
qed




lemma timerDelay_small: "0 \<le> x \<Longrightarrow> x < 2 ^ 31 \<Longrightarrow> timerDelay (Finite x) = x"
  by (simp add: timerDelay_def toInt32_def)

lemma closure_rejection_not_counted:
  assumes "closureIsOpen v" and "closureLastFailureTime v = Some l" and "now - l < timeoutArg"
  shows "createCircuitBreaker fn thresholdArg timeoutArg now v
           = (Thrown ''Circuit breaker is open'', now, v)"
  using assms by (simp add: createCircuitBreaker_def)

lemma closure_trial_failure_reopens:
  assumes "closureIsOpen v" and "closureLastFailureTime v = Some l" and "timeoutArg \<le> now - l"
    and "thresholdArg \<le> closureFailureCount v" and "fn now = (d, Rejected m)"
  shows "createCircuitBreaker fn thresholdArg timeoutArg now v
           = (Thrown m, now + d,
              v\<lparr>closureIsOpen := True, closureFailureCount := closureFailureCount v + 1, closureLastFailureTime := Some (now + d)\<rparr>)"
  using assms by (simp add: createCircuitBreaker_def)

lemmas run_defs = makeRequestWithRetry_def makeRequestWithRetryOn_def makeRequestLoop.simps
  tryBlock_def catchBlock_def isCircuitBreakerOpen_def incrementCircuitBreakerFailures_def
  resetCircuitBreaker_def delay_def calculateBackoffDelay_def updateSettings_def
  newErrorHandler_def defaultSettings_def steadyDraws_def simulateAPIRequest_def
  isRetryableError_def nonRetryablePatterns_def retryablePatterns_def test_def toUpperCase_def
  errorNameOf_def Let_def pow2_def roundToDouble_exact timerDelay_def toInt32_def

lemma unauthorized_run:
  "makeRequestWithRetry steadyDraws ''unauthorized'' defaultSettings (newErrorHandler 0)
     = (Thrown ''Unauthorized (401) - Invalid credentials'',
        \<lparr>stats = \<lparr>totalRequests = 1, successfulRequests = 0, failedRequests = 1,
                  totalRetries = 0, responseTimes = [],
                  errorTypes = [''Unauthorized'' \<mapsto> 1]\<rparr>,
         circuitBreakerState = \<lparr>isOpen = False, failureCount = 1,
                  lastFailureTime = Some 700, threshold = 3, timeout = 30000\<rparr>,
         currentRequest = \<lparr>status = Failed, shownAttempt = 1, maxAttempts = 4,
                  nextRetryTime = None\<rparr>,
         maxRetries = 3, baseDelay = 1000, backoffType = ''exponential'',
         requestTimeout = 5000, clock = 700,
         invoked = [\<lparr>attemptIndex = 0, calledAt = 0, pendingFor = 700\<rparr>], slept = []\<rparr>)"
  by (simp add: run_defs)

lemma rate_limit_run:
  "makeRequestWithRetry steadyDraws ''rate-limit'' defaultSettings (newErrorHandler 0)
     = (Returned (Result (Response ''Rate limit cleared'' 5100)),
        \<lparr>stats = \<lparr>totalRequests = 1, successfulRequests = 1, failedRequests = 0,
                  totalRetries = 2, responseTimes = [5100],
                  errorTypes = [''Too Many Requests'' \<mapsto> 2]\<rparr>,
         circuitBreakerState = \<lparr>isOpen = False, failureCount = 0,
                  lastFailureTime = None, threshold = 3, timeout = 30000\<rparr>,
         currentRequest = \<lparr>status = Success, shownAttempt = 3, maxAttempts = 4,
                  nextRetryTime = None\<rparr>,
         maxRetries = 3, baseDelay = 1000, backoffType = ''exponential'',
         requestTimeout = 5000, clock = 5100,
         invoked = [\<lparr>attemptIndex = 0, calledAt = 0, pendingFor = 700\<rparr>,
                    \<lparr>attemptIndex = 1, calledAt = 1700, pendingFor = 700\<rparr>,
                    \<lparr>attemptIndex = 2, calledAt = 4400, pendingFor = 700\<rparr>],
         slept = [Finite 1000, Finite 2000]\<rparr>)"
  by (simp add: run_defs numeral_2_eq_2)


lemma openedHandler_state:
  "openedHandler = (newErrorHandler 0)
     \<lparr>clock := 300,
      circuitBreakerState := \<lparr>isOpen = True, failureCount = 3, lastFailureTime = Some 300,
        threshold = 3, timeout = 30000\<rparr>\<rparr>"
  by (simp add: openedHandler_def newErrorHandler_def incrementCircuitBreakerFailures_def Let_def)

lemma blocked_run:
  "makeRequestWithRetry steadyDraws ''server-error'' defaultSettings
     (openedHandler\<lparr>clock := 1000\<rparr>)
     = (Thrown ''Circuit breaker is open - blocking request'',
        \<lparr>stats = \<lparr>totalRequests = 1, successfulRequests = 0, failedRequests = 1,
                  totalRetries = 0, responseTimes = [],
                  errorTypes = [''Circuit breaker is open - blocking request'' \<mapsto> 1]\<rparr>,
         circuitBreakerState = \<lparr>isOpen = True, failureCount = 4,
                  lastFailureTime = Some 1000, threshold = 3, timeout = 30000\<rparr>,
         currentRequest = \<lparr>status = Failed, shownAttempt = 1, maxAttempts = 4,
                  nextRetryTime = None\<rparr>,
         maxRetries = 3, baseDelay = 1000, backoffType = ''exponential'',
         requestTimeout = 5000, clock = 1000, invoked = [], slept = []\<rparr>)"
  by (simp add: openedHandler_state run_defs)

lemma trial_run:
  "makeRequestWithRetry steadyDraws ''unauthorized'' defaultSettings
     (openedHandler\<lparr>clock := 30300\<rparr>)
     = (Thrown ''Unauthorized (401) - Invalid credentials'',
        \<lparr>stats = \<lparr>totalRequests = 1, successfulRequests = 0, failedRequests = 1,
                  totalRetries = 0, responseTimes = [],
                  errorTypes = [''Unauthorized'' \<mapsto> 1]\<rparr>,
         circuitBreakerState = \<lparr>isOpen = False, failureCount = 1,
                  lastFailureTime = Some 31000, threshold = 3, timeout = 30000\<rparr>,
         currentRequest = \<lparr>status = Failed, shownAttempt = 1, maxAttempts = 4,
                  nextRetryTime = None\<rparr>,
         maxRetries = 3, baseDelay = 1000, backoffType = ''exponential'',
         requestTimeout = 5000, clock = 31000,
         invoked = [\<lparr>attemptIndex = 0, calledAt = 30300, pendingFor = 700\<rparr>],
         slept = []\<rparr>)"
  by (simp add: openedHandler_state run_defs)

lemma two_successes_run:
  "responseTimes (stats afterTwoSuccesses) = [501, 502]"
  "totalRequests (stats afterTwoSuccesses) = 2"
  "successfulRequests (stats afterTwoSuccesses) = 2"
  by (simp_all add: afterTwoSuccesses_def luckyDraws_def run_defs)

text \<open>A call that the open breaker rejects, for every operation, policy and state: it is
  terminal and invokes nothing, and it counts as a failure of the breaker.\<close>

lemma blocked_call:
  assumes policy: "0 \<le> maxRetriesField form"
    and blocked: "fst (isCircuitBreakerOpen h)"
    and run: "makeRequestWithRetryOn api form h = (c, h')"
  shows "c = Thrown ''Circuit breaker is open - blocking request''
       \<and> invoked h' = invoked h \<and> slept h' = slept h \<and> clock h' = clock h
       \<and> totalRetries (stats h') = totalRetries (stats h)
       \<and> failedRequests (stats h') = failedRequests (stats h) + 1
       \<and> failureCount (circuitBreakerState h') = failureCount (circuitBreakerState h) + 1
       \<and> lastFailureTime (circuitBreakerState h') = Some (clock h)"
proof -
  from makeRequestWithRetryOn_loop [of api form h] obtain h3 where
    loop: "makeRequestWithRetryOn api form h = makeRequestLoop api (clock h) 0 h3"
    and h3: "maxRetries h3 = maxRetriesField form"
      "circuitBreakerState h3 = circuitBreakerState h" "clock h3 = clock h"
      "invoked h3 = invoked h" "slept h3 = slept h"
      "failedRequests (stats h3) = failedRequests (stats h)"
      "totalRetries (stats h3) = totalRetries (stats h)"
    by blast
  from blocked isCircuitBreakerOpen_depends [OF h3(2,3)]
  have b3: "fst (isCircuitBreakerOpen h3)"
    by simp
  from policy h3 have "int 0 \<le> maxRetries h3"
    by simp
  from blocked_attempt_thrown [OF b3 this, of api "clock h"] loop run h3
  show ?thesis
    by auto
qed

section \<open>The claims\<close>

subsection \<open>Backoff\<close>




subsection \<open>Classifier\<close>

text \<open>
  Claim C5. \<open>isRetryableError\<close> is a total function to \<open>bool\<close> (retryable or not, one answer
  for each message). A message that matches the client and authentication set is not
  retryable, also when it matches the transient set; a message that matches only the
  transient set is retryable; a message that matches neither is not retryable.
\<close>

theorem classifier_precedence:
  "(matchesClient m \<longrightarrow> \<not> isRetryableError m)
   \<and> (\<not> matchesClient m \<and> matchesTransient m \<longrightarrow> isRetryableError m)
   \<and> (\<not> matchesClient m \<and> \<not> matchesTransient m \<longrightarrow> \<not> isRetryableError m)"
  by (simp add: isRetryableError_iff)

theorem classifier_precedence_witness:
  "matchesClient ''Gateway Timeout (504) on port 4000''
   \<and> matchesTransient ''Gateway Timeout (504) on port 4000''
   \<and> \<not> isRetryableError ''Gateway Timeout (504) on port 4000''
   \<and> \<not> matchesClient ''Request timeout'' \<and> matchesTransient ''Request timeout''
   \<and> isRetryableError ''Request timeout''
   \<and> \<not> matchesClient ''Disk full'' \<and> \<not> matchesTransient ''Disk full''
   \<and> \<not> isRetryableError ''Disk full''"
  using classifier_precedence [of "''Gateway Timeout (504) on port 4000''"]
    classifier_precedence [of "''Request timeout''"]
    classifier_precedence [of "''Disk full''"]
  by (simp add: matchesClient_def matchesTransient_def toUpperCase_def)

subsection \<open>Circuit breaker\<close>

text \<open>
  Claim C4. On a closed breaker, after as many failures as the threshold (3 in the handler
  that the constructor builds), \<open>isCircuitBreakerOpen\<close> answers \<open>True\<close> (the request is not
  admitted) at every check made before \<open>timeout\<close> (30000 ms) has passed since the last
  failure; the first check made when \<open>timeout\<close> or more has passed answers \<open>False\<close> (admitted);
  after the success that follows (\<open>resetCircuitBreaker\<close>), every later check answers \<open>False\<close>
  and \<open>failureCount\<close> is 0.
\<close>

theorem breaker_opens_then_recovers:
  assumes closed: "\<not> isOpen (circuitBreakerState h)"
    and failures: "fs \<noteq> []" "length fs = threshold (circuitBreakerState h)"
    and early: "\<forall>t \<in> set before. t - last fs < timeout (circuitBreakerState h)"
    and due: "timeout (circuitBreakerState h) \<le> t - last fs"
    and opened: "opened = snd (checksAt before (failuresAt fs h))"
    and trial: "trial = snd (isCircuitBreakerOpen (opened\<lparr>clock := t\<rparr>))"
  shows "fst (checksAt before (failuresAt fs h)) = replicate (length before) True
       \<and> fst (isCircuitBreakerOpen (opened\<lparr>clock := t\<rparr>)) = False
       \<and> fst (checksAt after (resetCircuitBreaker trial)) = replicate (length after) False
       \<and> failureCount (circuitBreakerState (snd (checksAt after (resetCircuitBreaker trial)))) = 0"
proof -
  from failures
  have "threshold (circuitBreakerState h) \<le> failureCount (circuitBreakerState h) + length fs"
    by simp
  note o = failuresAt_opens [OF failures(1) this]
  from o early have e: "\<forall>t \<in> set before. t - last fs
      < timeout (circuitBreakerState (failuresAt fs h))"
    by simp
  from o have "isOpen (circuitBreakerState (failuresAt fs h))"
    and "lastFailureTime (circuitBreakerState (failuresAt fs h)) = Some (last fs)"
    by simp_all
  note w = checksAt_waiting [OF this e]
  from w o opened due have "isCircuitBreakerOpen (opened\<lparr>clock := t\<rparr>)
      = (False, resetCircuitBreaker (opened\<lparr>clock := t\<rparr>))"
    by (intro isCircuitBreakerOpen_elapsed [of _ "last fs"]) simp_all
  moreover have "\<not> isOpen (circuitBreakerState (resetCircuitBreaker trial))"
    "failureCount (circuitBreakerState (resetCircuitBreaker trial)) = 0"
    by (simp_all add: resetCircuitBreaker_def)
  ultimately show ?thesis
    using w checksAt_closed [of "resetCircuitBreaker trial" after] by simp
qed

theorem breaker_opens_then_recovers_witness:
  "\<not> isOpen (circuitBreakerState (newErrorHandler 0))
   \<and> threshold (circuitBreakerState (newErrorHandler 0)) = 3
   \<and> timeout (circuitBreakerState (newErrorHandler 0)) = 30000
   \<and> fst (checksAt [301, 5000, 30299] (failuresAt [100, 200, 300] (newErrorHandler 0)))
       = [True, True, True]
   \<and> fst (isCircuitBreakerOpen
        ((snd (checksAt [301, 5000, 30299] (failuresAt [100, 200, 300] (newErrorHandler 0))))
           \<lparr>clock := 30300\<rparr>)) = False
   \<and> fst (checksAt [30301, 99999]
        (resetCircuitBreaker (snd (isCircuitBreakerOpen
          ((snd (checksAt [301, 5000, 30299] (failuresAt [100, 200, 300] (newErrorHandler 0))))
             \<lparr>clock := 30300\<rparr>))))) = [False, False]"
  using breaker_opens_then_recovers [of "newErrorHandler 0" "[100, 200, 300]"
      "[301, 5000, 30299]" 30300 _ _ "[30301, 99999]", OF _ _ _ _ _ refl refl]
  by (simp add: newErrorHandler_def numeral_3_eq_3)

subsection \<open>The retry loop\<close>

text \<open>
  Claim C7. When the first attempt of a call is made (the policy has \<open>maxRetries \<ge> 0\<close> and
  the circuit breaker admits the attempt) and the operation fails with an error that is not
  retryable, the call invokes the operation exactly once, schedules no retry (\<open>totalRetries\<close>
  is unchanged and nothing is waited for), counts one failed request and ends at once by
  throwing that error.
\<close>

theorem non_retryable_fails_at_once:
  assumes policy: "0 \<le> maxRetriesField form"
    and admitted: "\<not> fst (isCircuitBreakerOpen h)"
    and first: "api 0 (clock h) = (d, Rejected m)"
    and kind: "\<not> isRetryableError m"
    and run: "makeRequestWithRetryOn api form h = (c, h')"
  shows "c = Thrown m
       \<and> invoked h' = invoked h @ [\<lparr>attemptIndex = 0, calledAt = clock h, pendingFor = d\<rparr>]
       \<and> slept h' = slept h
       \<and> totalRetries (stats h') = totalRetries (stats h)
       \<and> failedRequests (stats h') = failedRequests (stats h) + 1
       \<and> successfulRequests (stats h') = successfulRequests (stats h)
       \<and> clock h' = clock h + d"
proof -
  from makeRequestWithRetryOn_loop [of api form h] obtain h3 where
    loop: "makeRequestWithRetryOn api form h = makeRequestLoop api (clock h) 0 h3"
    and h3: "maxRetries h3 = maxRetriesField form"
      "circuitBreakerState h3 = circuitBreakerState h" "clock h3 = clock h"
      "invoked h3 = invoked h" "slept h3 = slept h"
      "successfulRequests (stats h3) = successfulRequests (stats h)"
      "failedRequests (stats h3) = failedRequests (stats h)"
      "totalRetries (stats h3) = totalRetries (stats h)"
    by blast
  from admitted isCircuitBreakerOpen_depends [OF h3(2,3)]
  have a3: "\<not> fst (isCircuitBreakerOpen h3)"
    by simp
  from first h3 have f3: "api 0 (clock h3) = (d, Rejected m)"
    by simp
  from kind have k3: "maxRetries h3 \<le> int 0 \<or> \<not> isRetryableError m"
    by simp
  from policy h3 have b3: "int 0 \<le> maxRetries h3"
    by simp
  from failed_attempt_thrown [where h = h3 and api = api and a = 0 and d = d and m = m
      and st = "clock h", OF a3 f3 k3 b3] loop run h3
  show ?thesis
    by auto
qed


theorem non_retryable_fails_at_once_witness:
  "0 \<le> maxRetriesField defaultSettings
   \<and> \<not> fst (isCircuitBreakerOpen (newErrorHandler 0))
   \<and> simulateAPIRequest (steadyDraws 0) ''unauthorized'' 0 (clock (newErrorHandler 0))
       = (700, Rejected ''Unauthorized (401) - Invalid credentials'')
   \<and> \<not> isRetryableError ''Unauthorized (401) - Invalid credentials''
   \<and> fst (makeRequestWithRetry steadyDraws ''unauthorized'' defaultSettings (newErrorHandler 0))
       = Thrown ''Unauthorized (401) - Invalid credentials''
   \<and> invoked (snd (makeRequestWithRetry steadyDraws ''unauthorized'' defaultSettings
        (newErrorHandler 0))) = [\<lparr>attemptIndex = 0, calledAt = 0, pendingFor = 700\<rparr>]
   \<and> totalRetries (stats (snd (makeRequestWithRetry steadyDraws ''unauthorized''
        defaultSettings (newErrorHandler 0)))) = 0
   \<and> failedRequests (stats (snd (makeRequestWithRetry steadyDraws ''unauthorized''
        defaultSettings (newErrorHandler 0)))) = 1"
proof -
  let ?api = "\<lambda>attempt now. simulateAPIRequest (steadyDraws attempt) ''unauthorized'' attempt now"
  have p: "0 \<le> maxRetriesField defaultSettings"
    by (simp add: defaultSettings_def)
  have a: "\<not> fst (isCircuitBreakerOpen (newErrorHandler 0))"
    by (simp add: isCircuitBreakerOpen_def newErrorHandler_def)
  have f: "?api 0 (clock (newErrorHandler 0))
      = (700, Rejected ''Unauthorized (401) - Invalid credentials'')"
    by (simp add: simulateAPIRequest_def steadyDraws_def)
  have k: "\<not> isRetryableError ''Unauthorized (401) - Invalid credentials''"
    by (simp add: isRetryableError_iff matchesClient_def)
  from non_retryable_fails_at_once [where api = ?api and form = defaultSettings
      and h = "newErrorHandler 0" and d = 700
      and m = "''Unauthorized (401) - Invalid credentials''", OF p a f k prod.collapse [symmetric]]
  show ?thesis
    using p a f k by (simp add: makeRequestWithRetry_def newErrorHandler_def)
qed




text \<open>
  Claim C10 says that the average latency is the mean of the durations of the successful
  calls. What \<open>updateStats\<close> computes is \<open>Math.round\<close> of the mean: after two successful calls
  that took 501 ms and 502 ms it is 502, and the mean is 501.5.
\<close>

theorem average_is_rounded_counterexample:
  "responseTimes (stats afterTwoSuccesses) = [501, 502]
   \<and> avgResponseTime (stats afterTwoSuccesses) = Finite 502
   \<and> (501 + 502) / 2 \<noteq> (502::real)"
  by (simp add: two_successes_run avgResponseTime_rounds)

text \<open>
  Claim C10, amended. \<open>responseTimes\<close> gains an entry only when the call returns a result,
  and the entry is the time from the start of the call to the end of the successful
  attempt: the sum of the times all its attempts were pending, the failed ones too, and of
  all its backoff waits (one wait between two attempts). A call that ends otherwise leaves
  \<open>responseTimes\<close>, and so the average, as they were. The average that \<open>updateStats\<close> shows is
  the mean of the entries of \<open>responseTimes\<close>, so of the durations of the successful calls
  only, rounded to the nearest millisecond, halves up (for durations that are not
  negative, fewer than \<open>2 ^ 32\<close> and of a sum below \<open>2 ^ 52\<close> ms, where the doubles of the
  source round as the exact quotient does), and 0 when there is none.
\<close>

theorem response_time_spans_whole_call:
  assumes run: "makeRequestWithRetryOn api form h = (c, h')"
  shows "(\<forall>r. c = Returned (Result r) \<longrightarrow>
            (\<exists>inv sl. invoked h' = invoked h @ inv \<and> slept h' = slept h @ sl
               \<and> length inv = length sl + 1
               \<and> responseTimes (stats h') = responseTimes (stats h) @ [clock h' - clock h]
               \<and> clock h' - clock h
                    = sum_list (map pendingFor inv) + sum_list (map timerDelay sl)))
       \<and> ((\<forall>r. c \<noteq> Returned (Result r)) \<longrightarrow>
            responseTimes (stats h') = responseTimes (stats h)
            \<and> avgResponseTime (stats h') = avgResponseTime (stats h))
       \<and> (responseTimes (stats h') \<noteq> [] \<and> (\<forall>x \<in> set (responseTimes (stats h')). 0 \<le> x)
            \<and> sum_list (responseTimes (stats h')) < 2 ^ 52
            \<and> length (responseTimes (stats h')) < 2 ^ 32 \<longrightarrow>
            avgResponseTime (stats h')
              = Finite \<lfloor>real_of_int (sum_list (responseTimes (stats h')))
                          / real (length (responseTimes (stats h'))) + 1 / 2\<rfloor>)
       \<and> (responseTimes (stats h') = [] \<longrightarrow> avgResponseTime (stats h') = Finite 0)"
proof -
  from makeRequestWithRetryOn_loop [of api form h] obtain h3 where
    loop: "makeRequestWithRetryOn api form h = makeRequestLoop api (clock h) 0 h3"
    and h3: "clock h3 = clock h" "invoked h3 = invoked h" "slept h3 = slept h"
      "responseTimes (stats h3) = responseTimes (stats h)"
    by blast
  from loop run have l: "makeRequestLoop api (clock h) 0 h3 = (c, h')"
    by simp
  have avg: "(responseTimes (stats h') \<noteq> [] \<and> (\<forall>x \<in> set (responseTimes (stats h')). 0 \<le> x)
            \<and> sum_list (responseTimes (stats h')) < 2 ^ 52
            \<and> length (responseTimes (stats h')) < 2 ^ 32 \<longrightarrow>
            avgResponseTime (stats h')
              = Finite \<lfloor>real_of_int (sum_list (responseTimes (stats h')))
                          / real (length (responseTimes (stats h'))) + 1 / 2\<rfloor>)
       \<and> (responseTimes (stats h') = [] \<longrightarrow> avgResponseTime (stats h') = Finite 0)"
    using avgResponseTime_rounds [of "stats h'"] by (simp add: avgResponseTime_def)
  have calls: "(\<forall>r. c = Returned (Result r) \<longrightarrow>
            (\<exists>inv sl. invoked h' = invoked h @ inv \<and> slept h' = slept h @ sl
               \<and> length inv = length sl + 1
               \<and> responseTimes (stats h') = responseTimes (stats h) @ [clock h' - clock h]
               \<and> clock h' - clock h
                    = sum_list (map pendingFor inv) + sum_list (map timerDelay sl)))
       \<and> ((\<forall>r. c \<noteq> Returned (Result r)) \<longrightarrow>
            responseTimes (stats h') = responseTimes (stats h)
            \<and> avgResponseTime (stats h') = avgResponseTime (stats h))"
  proof (cases "int 0 \<le> maxRetries h3")
    case True
    from makeRequestLoop_trace [OF l True] obtain inv sl where
      t: "invoked h' = invoked h3 @ inv" "slept h' = slept h3 @ sl"
        "clock h' = clock h3 + sum_list (map pendingFor inv) + sum_list (map timerDelay sl)"
        "(\<exists>r. c = Returned (Result r) \<and> inv \<noteq> [] \<and> length inv = length sl + 1
              \<and> api (attemptIndex (last inv)) (calledAt (last inv))
                  = (pendingFor (last inv), Resolved r))
          \<or> (\<exists>e. c = Thrown e
              \<and> ((e = ''Circuit breaker is open - blocking request'' \<and> length inv = length sl)
                 \<or> (inv \<noteq> [] \<and> length inv = length sl + 1
                    \<and> api (attemptIndex (last inv)) (calledAt (last inv))
                        = (pendingFor (last inv), Rejected e))))"
      by blast
    have ok: "\<forall>r. c = Returned (Result r) \<longrightarrow>
            (\<exists>inv sl. invoked h' = invoked h @ inv \<and> slept h' = slept h @ sl
               \<and> length inv = length sl + 1
               \<and> responseTimes (stats h') = responseTimes (stats h) @ [clock h' - clock h]
               \<and> clock h' - clock h
                    = sum_list (map pendingFor inv) + sum_list (map timerDelay sl))"
    proof (intro allI impI)
      fix r
      assume c: "c = Returned (Result r)"
      with makeRequestLoop_counters [OF l True] h3
      have "responseTimes (stats h') = responseTimes (stats h) @ [clock h' - clock h]"
        by auto
      moreover from c t(4) have "length inv = length sl + 1"
        by auto
      ultimately show "\<exists>inv sl. invoked h' = invoked h @ inv \<and> slept h' = slept h @ sl
               \<and> length inv = length sl + 1
               \<and> responseTimes (stats h') = responseTimes (stats h) @ [clock h' - clock h]
               \<and> clock h' - clock h
                    = sum_list (map pendingFor inv) + sum_list (map timerDelay sl)"
        using t(1-3) h3 by (intro exI [of _ inv] exI [of _ sl]) simp
    qed
    have "(\<forall>r. c \<noteq> Returned (Result r)) \<longrightarrow>
            responseTimes (stats h') = responseTimes (stats h)"
      using makeRequestLoop_counters [OF l True] h3 by auto
    with ok show ?thesis
      by (simp add: avgResponseTime_def)
  next
    case False
    then have "makeRequestLoop api (clock h) 0 h3 = (Returned Undefined, h3)"
      by (intro makeRequestLoop_exhausted) simp
    with l h3 show ?thesis
      by (auto simp: avgResponseTime_def)
  qed
  from calls avg show ?thesis
    by (intro conjI) (erule conjunct1, erule conjunct2, erule conjunct1, erule conjunct2)
qed

theorem response_time_spans_whole_call_witness:
  "fst (makeRequestWithRetry steadyDraws ''rate-limit'' defaultSettings (newErrorHandler 0))
     = Returned (Result (Response ''Rate limit cleared'' 5100))
   \<and> (\<exists>inv sl. invoked (snd (makeRequestWithRetry steadyDraws ''rate-limit'' defaultSettings
         (newErrorHandler 0))) = inv
       \<and> slept (snd (makeRequestWithRetry steadyDraws ''rate-limit'' defaultSettings
         (newErrorHandler 0))) = sl
       \<and> length inv = length sl + 1
       \<and> sum_list (map pendingFor inv) + sum_list (map timerDelay sl) = 5100)
   \<and> responseTimes (stats (snd (makeRequestWithRetry steadyDraws ''rate-limit''
        defaultSettings (newErrorHandler 0)))) = [5100]
   \<and> sum_list [5100 :: int] < 2 ^ 52 \<and> length [5100 :: int] < 2 ^ 32
   \<and> avgResponseTime (stats (snd (makeRequestWithRetry steadyDraws ''rate-limit''
        defaultSettings (newErrorHandler 0)))) = Finite 5100
   \<and> (\<forall>r. fst (makeRequestWithRetry steadyDraws ''unauthorized'' defaultSettings
         (newErrorHandler 0)) \<noteq> Returned (Result r))
   \<and> responseTimes (stats (snd (makeRequestWithRetry steadyDraws ''unauthorized''
        defaultSettings (newErrorHandler 0)))) = []
   \<and> avgResponseTime (stats (snd (makeRequestWithRetry steadyDraws ''unauthorized''
        defaultSettings (newErrorHandler 0)))) = Finite 0"
proof -
  have e: "avgResponseTime (stats (newErrorHandler 0)) = Finite 0"
    by (simp add: newErrorHandler_def avgResponseTime_def)
  from response_time_spans_whole_call [where
      api = "\<lambda>attempt now. simulateAPIRequest (steadyDraws attempt) ''rate-limit'' attempt now"
      and form = defaultSettings and h = "newErrorHandler 0", OF prod.collapse [symmetric]]
    response_time_spans_whole_call [where
      api = "\<lambda>attempt now. simulateAPIRequest (steadyDraws attempt) ''unauthorized'' attempt now"
      and form = defaultSettings and h = "newErrorHandler 0", OF prod.collapse [symmetric]]
    e
  show ?thesis
    by (simp add: rate_limit_run unauthorized_run timerDelay_small
          makeRequestWithRetry_def [symmetric])
qed







text \<open>
  Claim C2 says that a call rejected by the open breaker is terminal, invokes nothing, is
  not retried and does not count as a failure of the breaker. In \<open>makeRequestWithRetry\<close> the
  rejection is thrown inside the \<open>try\<close> block, so the \<open>catch\<close> block of the same iteration
  handles it like a failure of the operation: the call is terminal, invokes nothing and
  schedules no retry, but \<open>incrementCircuitBreakerFailures\<close> runs, \<open>failureCount\<close> goes from 3
  to 4 and \<open>lastFailureTime\<close> is moved to the time of the rejected call. The breaker of
  \<open>ErrorUtils.createCircuitBreaker\<close> throws its rejection before its \<open>try\<close> block and leaves
  its count and time as they were.
\<close>

theorem blocked_call_counts_as_failure:
  "fst (isCircuitBreakerOpen (openedHandler\<lparr>clock := 1000\<rparr>))
   \<and> failureCount (circuitBreakerState (openedHandler\<lparr>clock := 1000\<rparr>)) = 3
   \<and> lastFailureTime (circuitBreakerState (openedHandler\<lparr>clock := 1000\<rparr>)) = Some 300
   \<and> fst (makeRequestWithRetry steadyDraws ''server-error'' defaultSettings
        (openedHandler\<lparr>clock := 1000\<rparr>))
       = Thrown ''Circuit breaker is open - blocking request''
   \<and> invoked (snd (makeRequestWithRetry steadyDraws ''server-error'' defaultSettings
        (openedHandler\<lparr>clock := 1000\<rparr>))) = []
   \<and> totalRetries (stats (snd (makeRequestWithRetry steadyDraws ''server-error''
        defaultSettings (openedHandler\<lparr>clock := 1000\<rparr>)))) = 0
   \<and> failureCount (circuitBreakerState (snd (makeRequestWithRetry steadyDraws
        ''server-error'' defaultSettings (openedHandler\<lparr>clock := 1000\<rparr>)))) = 4
   \<and> lastFailureTime (circuitBreakerState (snd (makeRequestWithRetry steadyDraws
        ''server-error'' defaultSettings (openedHandler\<lparr>clock := 1000\<rparr>)))) = Some 1000
   \<and> createCircuitBreaker (instantServerError 0) 3 30000 1000
        \<lparr>closureFailureCount = 3, closureLastFailureTime = Some 300, closureIsOpen = True\<rparr>
       = (Thrown ''Circuit breaker is open'', 1000,
          \<lparr>closureFailureCount = 3, closureLastFailureTime = Some 300, closureIsOpen = True\<rparr>)"
  by (simp add: blocked_run closure_rejection_not_counted)
     (simp add: openedHandler_state isCircuitBreakerOpen_def newErrorHandler_def)

text \<open>
  Claim C3 says that a failed trial in the half-open state opens the breaker again, with the
  count of failures at or above the threshold. \<open>isCircuitBreakerOpen\<close>, once the timeout has
  passed, logs that the breaker enters recovery mode (half-open) and calls
  \<open>resetCircuitBreaker\<close>, which closes the breaker and sets \<open>failureCount\<close> to 0. The trial
  that fails then leaves the breaker closed with \<open>failureCount = 1\<close>, below the threshold 3,
  and the next attempt is admitted too. The breaker of \<open>ErrorUtils.createCircuitBreaker\<close>
  only clears its flag for the trial and keeps its count, so that a failed trial opens it
  again, with the count at 4.
\<close>

theorem failed_trial_leaves_breaker_closed:
  "isOpen (circuitBreakerState (openedHandler\<lparr>clock := 30300\<rparr>))
   \<and> \<not> fst (isCircuitBreakerOpen (openedHandler\<lparr>clock := 30300\<rparr>))
   \<and> fst (makeRequestWithRetry steadyDraws ''unauthorized'' defaultSettings
        (openedHandler\<lparr>clock := 30300\<rparr>))
       = Thrown ''Unauthorized (401) - Invalid credentials''
   \<and> length (invoked (snd (makeRequestWithRetry steadyDraws ''unauthorized'' defaultSettings
        (openedHandler\<lparr>clock := 30300\<rparr>)))) = 1
   \<and> \<not> isOpen (circuitBreakerState (snd (makeRequestWithRetry steadyDraws ''unauthorized''
        defaultSettings (openedHandler\<lparr>clock := 30300\<rparr>))))
   \<and> failureCount (circuitBreakerState (snd (makeRequestWithRetry steadyDraws
        ''unauthorized'' defaultSettings (openedHandler\<lparr>clock := 30300\<rparr>)))) = 1
   \<and> threshold (circuitBreakerState (snd (makeRequestWithRetry steadyDraws
        ''unauthorized'' defaultSettings (openedHandler\<lparr>clock := 30300\<rparr>)))) = 3
   \<and> \<not> fst (isCircuitBreakerOpen (snd (makeRequestWithRetry steadyDraws ''unauthorized''
        defaultSettings (openedHandler\<lparr>clock := 30300\<rparr>))))
   \<and> createCircuitBreaker (instantServerError 0) 3 30000 30300
        \<lparr>closureFailureCount = 3, closureLastFailureTime = Some 300, closureIsOpen = True\<rparr>
       = (Thrown ''Internal Server Error (500)'', 30300,
          \<lparr>closureFailureCount = 4, closureLastFailureTime = Some 30300,
           closureIsOpen = True\<rparr>)"
  by (simp add: trial_run isCircuitBreakerOpen_def createCircuitBreaker_def
        instantServerError_def)
     (simp add: openedHandler_state newErrorHandler_def)

end
